theory Spec2Isabelle
  imports Main "HOL-Library.Word"
begin

section \<open>Strings of the host language\<close>

text \<open>
  A string of the source language is a finite sequence of 16-bit code units.  String
  literals of the source are ASCII; \<open>lit\<close> embeds them.
\<close>

type_synonym code_unit = "16 word"
type_synonym jsstring = "code_unit list"

definition lit :: "string \<Rightarrow> jsstring" where
  "lit s = map (\<lambda>c. of_nat (of_char c)) s"

text \<open>The double quote and the apostrophe, which a literal cannot hold directly.\<close>

definition dquote :: char where
  "dquote = CHR 0x22"

definition apostrophe :: char where
  "apostrophe = CHR 0x27"

text \<open>
  The exceptions a call can end with: \<open>URIError\<close> from \<open>encodeURIComponent\<close>,
  \<open>AbortError\<close> when the cancellation timer aborts \<open>fetch\<close>, \<open>NetworkError\<close> when
  \<open>fetch\<close> rejects by itself, \<open>SyntaxError\<close> when \<open>response.json()\<close> cannot parse the
  body, and \<open>Error msg\<close> for \<open>throw new Error(msg)\<close>.
\<close>

datatype error = URIError | AbortError | NetworkError | SyntaxError | Error jsstring

subsection \<open>Numbers\<close>

text \<open>
  A number of the source language is an integral value \<open>Num n\<close> (limits, offsets, Unix
  timestamps, pixel heights, milliseconds, spell ids), \<open>NaN\<close>, or an infinity; \<open>-0\<close>
  is not told apart from \<open>0\<close>, which no operation used here does, and values with a
  fraction are left out.  The falsy numbers are \<open>0\<close> and \<open>NaN\<close>.  \<open>Number_toString\<close>
  is \<open>Number.prototype.toString\<close>: for an integral value the decimal digits, with a
  leading minus sign below zero (from \<open>10^21\<close> on the platform writes an exponent, which is
  not modelled).
\<close>

datatype number = Num int | NaN | PosInfinity | NegInfinity

definition falsy :: "number \<Rightarrow> bool" where
  "falsy n = (n = Num 0 \<or> n = NaN)"

definition digit_unit :: "nat \<Rightarrow> code_unit" where
  "digit_unit d = of_nat (48 + d)"

fun nat_digits :: "nat \<Rightarrow> jsstring" where
  "nat_digits n = (if n < 10 then [digit_unit n] else nat_digits (n div 10) @ [digit_unit (n mod 10)])"

declare nat_digits.simps [simp del]

definition int_digits :: "int \<Rightarrow> jsstring" where
  "int_digits n = (if n < 0 then lit ''-'' @ nat_digits (nat (- n)) else nat_digits (nat n))"

fun Number_toString :: "number \<Rightarrow> jsstring" where
  "Number_toString (Num n) = int_digits n"
| "Number_toString NaN = lit ''NaN''"
| "Number_toString PosInfinity = lit ''Infinity''"
| "Number_toString NegInfinity = lit ''-Infinity''"

subsection \<open>UTF-16 and UTF-8\<close>

definition isLeadingSurrogate :: "code_unit \<Rightarrow> bool" where
  "isLeadingSurrogate c = (0xD800 \<le> unat c \<and> unat c \<le> 0xDBFF)"

definition isTrailingSurrogate :: "code_unit \<Rightarrow> bool" where
  "isTrailingSurrogate c = (0xDC00 \<le> unat c \<and> unat c \<le> 0xDFFF)"

definition UTF16SurrogatePairToCodePoint :: "code_unit \<Rightarrow> code_unit \<Rightarrow> nat" where
  "UTF16SurrogatePairToCodePoint lead trail =
     (unat lead - 0xD800) * 0x400 + (unat trail - 0xDC00) + 0x10000"

text \<open>The UTF-8 transformation of a code point, as a list of octets.\<close>

definition UTF8 :: "nat \<Rightarrow> nat list" where
  "UTF8 cp =
     (if cp < 0x80 then [cp]
      else if cp < 0x800 then [0xC0 + cp div 64, 0x80 + cp mod 64]
      else if cp < 0x10000 then [0xE0 + cp div 4096, 0x80 + (cp div 64) mod 64, 0x80 + cp mod 64]
      else [0xF0 + cp div 262144, 0x80 + (cp div 4096) mod 64, 0x80 + (cp div 64) mod 64,
            0x80 + cp mod 64])"

definition hexDigits :: jsstring where
  "hexDigits = lit ''0123456789ABCDEF''"

text \<open>One octet as \<open>%XX\<close>, two uppercase hexadecimal digits.\<close>

definition percentOctet :: "nat \<Rightarrow> jsstring" where
  "percentOctet b = lit ''%'' @ [hexDigits ! (b div 16 mod 16), hexDigits ! (b mod 16)]"

definition percentOctets :: "nat list \<Rightarrow> jsstring" where
  "percentOctets bs = concat (map percentOctet bs)"

subsection \<open>encodeURIComponent\<close>

text \<open>
  \<open>encodeURIComponent\<close> is a function of the host language (ECMA-262, \<open>Encode\<close> with
  the unreserved set \<open>A-Z a-z 0-9 - _ . ! ~ * ' ( )\<close>).  A code unit of that set is
  copied; any other code point is written as the \<open>%XX\<close> octets of its UTF-8 form; an
  unpaired surrogate throws \<open>URIError\<close>.
\<close>

definition uriAlpha :: "code_unit \<Rightarrow> bool" where
  "uriAlpha c = ((0x41 \<le> unat c \<and> unat c \<le> 0x5A) \<or> (0x61 \<le> unat c \<and> unat c \<le> 0x7A))"

definition DecimalDigit :: "code_unit \<Rightarrow> bool" where
  "DecimalDigit c = (0x30 \<le> unat c \<and> unat c \<le> 0x39)"

definition uriMark :: "code_unit \<Rightarrow> bool" where
  "uriMark c = (c \<in> set (lit (''-_.!~*'' @ [apostrophe] @ ''()'')))"

definition uriUnreserved :: "code_unit \<Rightarrow> bool" where
  "uriUnreserved c = (uriAlpha c \<or> DecimalDigit c \<or> uriMark c)"

definition prepend :: "jsstring \<Rightarrow> error + jsstring \<Rightarrow> error + jsstring" where
  "prepend p r = (case r of Inl e \<Rightarrow> Inl e | Inr s \<Rightarrow> Inr (p @ s))"

fun Encode :: "jsstring \<Rightarrow> error + jsstring" where
  "Encode [] = Inr []"
| "Encode (c # cs) =
     (if uriUnreserved c then prepend [c] (Encode cs)
      else if isLeadingSurrogate c then
        (case cs of
           [] \<Rightarrow> Inl URIError
         | d # ds \<Rightarrow>
             if isTrailingSurrogate d
             then prepend (percentOctets (UTF8 (UTF16SurrogatePairToCodePoint c d))) (Encode ds)
             else Inl URIError)
      else if isTrailingSurrogate c then Inl URIError
      else prepend (percentOctets (UTF8 (unat c))) (Encode cs))"

definition encodeURIComponent :: "jsstring \<Rightarrow> error + jsstring" where
  "encodeURIComponent s = Encode s"

subsection \<open>URLSearchParams\<close>

text \<open>
  \<open>URLSearchParams\<close> is a list of name-value pairs; \<open>toString\<close> is the
  \<open>application/x-www-form-urlencoded\<close> serialiser of the URL standard: names and values
  are converted to scalar values (an unpaired surrogate becomes U+FFFD), UTF-8 encoded,
  and every octet outside \<open>A-Z a-z 0-9 * - . _\<close> is percent-encoded, a space as \<open>+\<close>.
\<close>

type_synonym URLSearchParams = "(jsstring \<times> jsstring) list"

fun scalarValues :: "jsstring \<Rightarrow> nat list" where
  "scalarValues [] = []"
| "scalarValues (c # cs) =
     (if isLeadingSurrogate c then
        (case cs of
           [] \<Rightarrow> [0xFFFD]
         | d # ds \<Rightarrow>
             if isTrailingSurrogate d then UTF16SurrogatePairToCodePoint c d # scalarValues ds
             else 0xFFFD # scalarValues cs)
      else if isTrailingSurrogate c then 0xFFFD # scalarValues cs
      else unat c # scalarValues cs)"

definition utf8_encode :: "jsstring \<Rightarrow> nat list" where
  "utf8_encode s = concat (map UTF8 (scalarValues s))"

definition urlencodedByte :: "nat \<Rightarrow> jsstring" where
  "urlencodedByte b =
     (if b = 0x20 then lit ''+''
      else if b = 0x2A \<or> b = 0x2D \<or> b = 0x2E \<or> b = 0x5F \<or> (0x30 \<le> b \<and> b \<le> 0x39)
              \<or> (0x41 \<le> b \<and> b \<le> 0x5A) \<or> (0x61 \<le> b \<and> b \<le> 0x7A)
      then [of_nat b]
      else percentOctet b)"

definition urlencoded :: "jsstring \<Rightarrow> jsstring" where
  "urlencoded s = concat (map urlencodedByte (utf8_encode s))"

fun joinWith :: "jsstring \<Rightarrow> jsstring list \<Rightarrow> jsstring" where
  "joinWith sep [] = []"
| "joinWith sep [x] = x"
| "joinWith sep (x # y # ys) = x @ sep @ joinWith sep (y # ys)"

definition params_append :: "URLSearchParams \<Rightarrow> jsstring \<Rightarrow> jsstring \<Rightarrow> URLSearchParams" where
  "params_append ps name v = ps @ [(name, v)]"

definition params_toString :: "URLSearchParams \<Rightarrow> jsstring" where
  "params_toString ps =
     joinWith (lit ''&'') (map (\<lambda>(name, v). urlencoded name @ lit ''='' @ urlencoded v) ps)"

subsection \<open>The path of a URL\<close>

text \<open>
  \<open>fetch\<close> parses the string it is given with the parser of the URL standard.
  \<open>url_path\<close> is the path of the URL record that parser builds, for a URL with the
  scheme \<open>https\<close>, from the part of the string that follows the host: trailing control
  characters and spaces are stripped, tabs and newlines removed, and the path state runs
  up to the first \<open>?\<close> or \<open>#\<close>.  A buffer that is a single-dot segment (\<open>.\<close> or
  \<open>%2e\<close>) adds no segment, one that is a double-dot segment (\<open>..\<close> and its
  percent-encoded forms) removes the last one.
\<close>

definition ascii_lower :: "code_unit \<Rightarrow> code_unit" where
  "ascii_lower c = (if 0x41 \<le> unat c \<and> unat c \<le> 0x5A then c + 0x20 else c)"

definition single_dot_segment :: "jsstring \<Rightarrow> bool" where
  "single_dot_segment buffer =
     (map ascii_lower buffer = lit ''.'' \<or> map ascii_lower buffer = lit ''%2e'')"

definition double_dot_segment :: "jsstring \<Rightarrow> bool" where
  "double_dot_segment buffer =
     (map ascii_lower buffer = lit ''..'' \<or> map ascii_lower buffer = lit ''.%2e'' \<or>
      map ascii_lower buffer = lit ''%2e.'' \<or> map ascii_lower buffer = lit ''%2e%2e'')"

definition shorten :: "jsstring list \<Rightarrow> jsstring list" where
  "shorten path = butlast path"

definition path_percent_encode_set :: "nat \<Rightarrow> bool" where
  "path_percent_encode_set cp =
     (cp \<le> 0x1F \<or> 0x7E < cp \<or>
      cp \<in> set [0x20, 0x22, 0x23, 0x3C, 0x3E, 0x3F, 0x5E, 0x60, 0x7B, 0x7D])"

definition utf8_percent_encode :: "nat \<Rightarrow> jsstring" where
  "utf8_percent_encode cp =
     (if path_percent_encode_set cp then percentOctets (UTF8 cp) else [of_nat cp])"

definition end_segment :: "jsstring list \<Rightarrow> jsstring \<Rightarrow> bool \<Rightarrow> jsstring list" where
  "end_segment path buffer at_slash =
     (if double_dot_segment buffer
      then (if at_slash then shorten path else shorten path @ [[]])
      else if single_dot_segment buffer
      then (if at_slash then path else path @ [[]])
      else path @ [buffer])"

fun path_state :: "jsstring list \<Rightarrow> jsstring \<Rightarrow> nat list \<Rightarrow> jsstring list" where
  "path_state path buffer [] = end_segment path buffer False"
| "path_state path buffer (c # cs) =
     (if c = 0x2F \<or> c = 0x5C then path_state (end_segment path buffer True) [] cs
      else if c = 0x3F \<or> c = 0x23 then end_segment path buffer False
      else path_state path (buffer @ utf8_percent_encode c) cs)"

definition url_path :: "jsstring \<Rightarrow> jsstring list" where
  "url_path s =
     (let trimmed = rev (dropWhile (\<lambda>c. unat c \<le> 0x20) (rev s));
          cleaned = filter (\<lambda>c. c \<noteq> 0x09 \<and> c \<noteq> 0x0A \<and> c \<noteq> 0x0D) trimmed
      in case scalarValues cleaned of
           [] \<Rightarrow> path_state [] [] []
         | c # cs \<Rightarrow>
             if c = 0x2F \<or> c = 0x5C then path_state [] [] cs else path_state [] [] (c # cs))"

subsection \<open>JSON.stringify\<close>

text \<open>
  The values the clients serialise: objects of strings, numbers and arrays.
  \<open>JSON_stringify\<close> is \<open>JSON.stringify\<close> with one argument (no indentation): it keeps
  the order of an object's keys, and writes a number that is not finite as \<open>null\<close>;
  \<open>QuoteJSONString\<close> escapes the quote, the backslash, the control characters and
  unpaired surrogates.
\<close>

datatype json =
    JNull
  | JBoolean bool
  | JNumber number
  | JString jsstring
  | JArray "json list"
  | JObject "(jsstring \<times> json) list"

definition backslash :: char where
  "backslash = CHR 0x5C"

definition lowerHexDigits :: jsstring where
  "lowerHexDigits = lit ''0123456789abcdef''"

definition UnicodeEscape :: "code_unit \<Rightarrow> jsstring" where
  "UnicodeEscape c =
     lit [backslash, CHR ''u''] @
     [lowerHexDigits ! (unat c div 4096 mod 16), lowerHexDigits ! (unat c div 256 mod 16),
      lowerHexDigits ! (unat c div 16 mod 16), lowerHexDigits ! (unat c mod 16)]"

fun quoteUnits :: "jsstring \<Rightarrow> jsstring" where
  "quoteUnits [] = []"
| "quoteUnits (c # cs) =
     (if c = 0x08 then lit [backslash, CHR ''b''] @ quoteUnits cs
      else if c = 0x09 then lit [backslash, CHR ''t''] @ quoteUnits cs
      else if c = 0x0A then lit [backslash, CHR ''n''] @ quoteUnits cs
      else if c = 0x0C then lit [backslash, CHR ''f''] @ quoteUnits cs
      else if c = 0x0D then lit [backslash, CHR ''r''] @ quoteUnits cs
      else if c = 0x22 then lit [backslash, dquote] @ quoteUnits cs
      else if c = 0x5C then lit [backslash, backslash] @ quoteUnits cs
      else if unat c < 0x20 then UnicodeEscape c @ quoteUnits cs
      else if isLeadingSurrogate c then
        (case cs of
           [] \<Rightarrow> UnicodeEscape c
         | d # ds \<Rightarrow>
             if isTrailingSurrogate d then c # d # quoteUnits ds
             else UnicodeEscape c @ quoteUnits cs)
      else if isTrailingSurrogate c then UnicodeEscape c @ quoteUnits cs
      else c # quoteUnits cs)"

definition QuoteJSONString :: "jsstring \<Rightarrow> jsstring" where
  "QuoteJSONString s = lit [dquote] @ quoteUnits s @ lit [dquote]"

fun JSON_stringify :: "json \<Rightarrow> jsstring" where
  "JSON_stringify JNull = lit ''null''"
| "JSON_stringify (JBoolean b) = (if b then lit ''true'' else lit ''false'')"
| "JSON_stringify (JNumber n) = (case n of Num k \<Rightarrow> Number_toString n | _ \<Rightarrow> lit ''null'')"
| "JSON_stringify (JString s) = QuoteJSONString s"
| "JSON_stringify (JArray xs) =
     lit ''['' @ joinWith (lit '','') (map JSON_stringify xs) @ lit '']''"
| "JSON_stringify (JObject kvs) =
     lit ''{'' @
     joinWith (lit '','')
       (map (\<lambda>kv. QuoteJSONString (fst kv) @ lit '':'' @ JSON_stringify (snd kv)) kvs) @
     lit ''}''"

section \<open>The clients\<close>

subsection \<open>Configuration and construction\<close>

text \<open>
  Both classes hold the same three private fields.  \<open>Record<string, string>\<close> is a
  map from keys to values; object spread \<open>{...a, ...b}\<close> is \<open>a ++ b\<close>, the right
  operand winning on a shared key.  An optional field is an \<open>option\<close>.
\<close>

type_synonym headers_map = "jsstring \<rightharpoonup> jsstring"

record client =
  baseUrl :: jsstring
  timeout :: number
  headers :: headers_map

record config =
  cfg_baseUrl :: "jsstring option"
  cfg_timeout :: "number option"
  cfg_headers :: "headers_map option"

text \<open>\<open>x || d\<close>: the default replaces a value that is undefined or falsy.\<close>

definition string_or :: "jsstring option \<Rightarrow> jsstring \<Rightarrow> jsstring" where
  "string_or x d = (case x of None \<Rightarrow> d | Some s \<Rightarrow> if s = [] then d else s)"

definition number_or :: "number option \<Rightarrow> number \<Rightarrow> number" where
  "number_or x d = (case x of None \<Rightarrow> d | Some n \<Rightarrow> if falsy n then d else n)"

definition spread :: "headers_map option \<Rightarrow> headers_map" where
  "spread h = (case h of None \<Rightarrow> Map.empty | Some m \<Rightarrow> m)"

definition default_headers :: headers_map where
  "default_headers = [lit ''Content-Type'' \<mapsto> lit ''application/json'']"

definition PriceDBClient :: "config \<Rightarrow> client" where
  "PriceDBClient cfg =
     \<lparr> baseUrl = string_or (cfg_baseUrl cfg) (lit ''https://pricedb.io''),
       timeout = number_or (cfg_timeout cfg) (Num 10000),
       headers = default_headers ++ spread (cfg_headers cfg) \<rparr>"

definition SpellsClient :: "config \<Rightarrow> client" where
  "SpellsClient cfg =
     \<lparr> baseUrl = string_or (cfg_baseUrl cfg) (lit ''https://spell.pricedb.io''),
       timeout = number_or (cfg_timeout cfg) (Num 10000),
       headers = default_headers ++ spread (cfg_headers cfg) \<rparr>"

subsection \<open>The environment: timers, the network, the trace\<close>

text \<open>
  A call runs against a world: the client object \<open>this\<close>, a logical clock in
  milliseconds, the timers that are armed (identifier and deadline), and the trace of
  what the call did to its environment.  \<open>setTimeout\<close> arms a timer and \<open>clearTimeout\<close>
  disarms it.  The timers are those of Node.js, the platform of the packages: a delay
  that is not a number from 1 to 2147483647 (that is \<open>NaN\<close>, infinite, below 1 or above
  \<open>2^31 - 1\<close>) is set to 1 ms.  Calls run one after the other: the timers armed when a
  call begins are not those of another call in flight.
\<close>

record fetch_call =
  url :: jsstring
  fetch_method :: "jsstring option"
  body :: "jsstring option"
  fetch_headers :: headers_map
  signal :: nat

datatype event =
    SetTimeout nat number
  | Fetch fetch_call
  | TimerFired nat
  | ClearTimeout nat

record world =
  this :: client
  clock :: nat
  timers :: "(nat \<times> nat) list"
  next_timer :: nat
  events :: "event list"

definition timer_delay :: "number \<Rightarrow> nat" where
  "timer_delay delay =
     (case delay of
        Num n \<Rightarrow> if 1 \<le> n \<and> n \<le> 2147483647 then nat n else 1
      | _ \<Rightarrow> 1)"

definition setTimeout :: "number \<Rightarrow> world \<Rightarrow> nat \<times> world" where
  "setTimeout delay w =
     (next_timer w,
      w\<lparr> timers := (next_timer w, clock w + timer_delay delay) # timers w,
         next_timer := Suc (next_timer w),
         events := events w @ [SetTimeout (next_timer w) delay] \<rparr>)"

definition clearTimeout :: "nat \<Rightarrow> world \<Rightarrow> world" where
  "clearTimeout tid w =
     w\<lparr> timers := filter (\<lambda>t. fst t \<noteq> tid) (timers w),
        events := events w @ [ClearTimeout tid] \<rparr>"

text \<open>
  What \<open>fetch\<close> gives back is a \<open>Response\<close>: its status (an integer), the time the
  body still takes to arrive once \<open>fetch\<close> has settled, and what \<open>response.json()\<close>
  yields when the body has arrived, a parsed value of any type or the parser's
  \<open>SyntaxError\<close>.  \<open>response.ok\<close> is true for the statuses 200 to 299.
\<close>

record 'a response =
  status :: int
  body_after :: nat
  parsed :: "error + 'a"

definition ok :: "'a response \<Rightarrow> bool" where
  "ok r = (200 \<le> status r \<and> status r \<le> 299)"

text \<open>
  The network decides, from the time of the request and the request itself, whether the
  server answers after some milliseconds, the connection fails after some milliseconds,
  or nothing ever comes back.
\<close>

datatype 'a reply = Responds nat "'a response" | Fails nat | Silent

type_synonym 'a network = "nat \<Rightarrow> fetch_call \<Rightarrow> 'a reply"

text \<open>
  The timer callback \<open>() => controller.abort()\<close>: when the timer \<open>tid\<close> expires at its
  deadline, the signal aborts the pending \<open>fetch\<close>.
\<close>

definition fire :: "nat \<Rightarrow> nat \<Rightarrow> world \<Rightarrow> world" where
  "fire tid deadline w =
     w\<lparr> clock := max (clock w) deadline,
        timers := filter (\<lambda>t. fst t \<noteq> tid) (timers w),
        events := events w @ [TimerFired tid] \<rparr>"

definition settles_before :: "nat \<Rightarrow> nat option \<Rightarrow> bool" where
  "settles_before t deadline = (case deadline of None \<Rightarrow> True | Some d \<Rightarrow> t < d)"

text \<open>
  \<open>fetch\<close> with an abort signal.  The signal is the timer that aborts it.  The result is
  \<open>None\<close> when the promise never settles: a silent server and no armed timer.  What
  settles at the very millisecond of the deadline is aborted.
\<close>

definition fetch :: "'a network \<Rightarrow> fetch_call \<Rightarrow> world \<Rightarrow> ((error + 'a response) \<times> world) option" where
  "fetch net call w =
     (let w1 = w\<lparr> events := events w @ [Fetch call] \<rparr>;
          deadline = map_of (timers w) (signal call);
          aborted = (case deadline of
                       None \<Rightarrow> None
                     | Some d \<Rightarrow> Some (Inl AbortError, fire (signal call) d w1))
      in case net (clock w) call of
           Responds t r \<Rightarrow>
             if settles_before (clock w + t) deadline
             then Some (Inr r, w1\<lparr> clock := clock w + t \<rparr>)
             else aborted
         | Fails t \<Rightarrow>
             if settles_before (clock w + t) deadline
             then Some (Inl NetworkError, w1\<lparr> clock := clock w + t \<rparr>)
             else aborted
         | Silent \<Rightarrow> aborted)"

text \<open>
  \<open>response.json()\<close> settles when the body has arrived; the signal given to \<open>fetch\<close>
  aborts the reading of a body that has not arrived by the deadline.
\<close>

definition response_json :: "nat \<Rightarrow> 'a response \<Rightarrow> world \<Rightarrow> ((error + 'a) \<times> world) option" where
  "response_json sig r w =
     (case map_of (timers w) sig of
        None \<Rightarrow> Some (parsed r, w\<lparr> clock := clock w + body_after r \<rparr>)
      | Some d \<Rightarrow>
          if clock w + body_after r < d
          then Some (parsed r, w\<lparr> clock := clock w + body_after r \<rparr>)
          else Some (Inl AbortError, fire sig d w))"

subsection \<open>The transport core\<close>

text \<open>
  \<open>request\<close> has the same body in both classes (client.ts of pricedb-client, lines
  55 to 77; client.ts of spells-client, lines 58 to 80).  \<open>try_finally\<close> runs the
  handler on the world the body leaves, whether the body returned or threw.
\<close>

record RequestInit =
  init_method :: "jsstring option"
  init_body :: "jsstring option"
  init_headers :: "headers_map option"

definition no_options :: RequestInit where
  "no_options = \<lparr> init_method = None, init_body = None, init_headers = None \<rparr>"

definition try_finally ::
  "(world \<Rightarrow> ((error + 'a) \<times> world) option) \<Rightarrow> (world \<Rightarrow> world) \<Rightarrow> world \<Rightarrow> ((error + 'a) \<times> world) option" where
  "try_finally blk handler w =
     (case blk w of None \<Rightarrow> None | Some (r, w') \<Rightarrow> Some (r, handler w'))"

definition request_body ::
  "'a network \<Rightarrow> jsstring \<Rightarrow> RequestInit \<Rightarrow> nat \<Rightarrow> world \<Rightarrow> ((error + 'a) \<times> world) option" where
  "request_body net endpoint options timeoutId w =
     (case fetch net
             \<lparr> url = baseUrl (this w) @ endpoint,
               fetch_method = init_method options,
               body = init_body options,
               fetch_headers = headers (this w) ++ spread (init_headers options),
               signal = timeoutId \<rparr> w of
        None \<Rightarrow> None
      | Some (Inl e, w') \<Rightarrow> Some (Inl e, w')
      | Some (Inr response, w') \<Rightarrow>
          if \<not> ok response
          then Some (Inl (Error (lit ''HTTP error! status: '' @ int_digits (status response))), w')
          else response_json timeoutId response w')"

definition request ::
  "'a network \<Rightarrow> jsstring \<Rightarrow> RequestInit \<Rightarrow> world \<Rightarrow> ((error + 'a) \<times> world) option" where
  "request net endpoint options w =
     (case setTimeout (timeout (this w)) w of
        (timeoutId, w1) \<Rightarrow>
          try_finally (request_body net endpoint options timeoutId) (clearTimeout timeoutId) w1)"

subsection \<open>Endpoint methods of PriceDBClient\<close>

text \<open>
  An exception thrown before the request is made ends the call with the world as it
  was.  \<open>if (x) params.append(name, x.toString())\<close> appends nothing when \<open>x\<close> is
  undefined or falsy.
\<close>

definition throw :: "error \<Rightarrow> world \<Rightarrow> ((error + 'a) \<times> world) option" where
  "throw e w = Some (Inl e, w)"

definition append_if_number :: "URLSearchParams \<Rightarrow> jsstring \<Rightarrow> number option \<Rightarrow> URLSearchParams" where
  "append_if_number ps name x =
     (case x of
        None \<Rightarrow> ps
      | Some n \<Rightarrow> if falsy n then ps else params_append ps name (Number_toString n))"

definition append_if_string :: "URLSearchParams \<Rightarrow> jsstring \<Rightarrow> jsstring option \<Rightarrow> URLSearchParams" where
  "append_if_string ps name x =
     (case x of
        None \<Rightarrow> ps
      | Some v \<Rightarrow> if v = [] then ps else params_append ps name v)"

record PaginationOptions =
  limit :: "number option"
  offset :: "number option"

record HistoryOptions =
  history_start :: "number option"
  history_end :: "number option"

record SearchOptions =
  query :: jsstring
  search_limit :: "number option"

record GraphOptions =
  header :: "bool option"
  height :: "number option"
  width :: "jsstring option"

definition health :: "'a network \<Rightarrow> world \<Rightarrow> ((error + 'a) \<times> world) option" where
  "health net w = request net (lit ''/api/'') no_options w"

definition getItems :: "'a network \<Rightarrow> world \<Rightarrow> ((error + 'a) \<times> world) option" where
  "getItems net w = request net (lit ''/api/items'') no_options w"

definition getLatestPrices :: "'a network \<Rightarrow> world \<Rightarrow> ((error + 'a) \<times> world) option" where
  "getLatestPrices net w = request net (lit ''/api/latest-prices'') no_options w"

definition getPrices :: "'a network \<Rightarrow> PaginationOptions \<Rightarrow> world \<Rightarrow> ((error + 'a) \<times> world) option" where
  "getPrices net options w =
     (let params = append_if_number [] (lit ''limit'') (limit options);
          params = append_if_number params (lit ''offset'') (offset options);
          queryString = params_toString params;
          endpoint = (if queryString \<noteq> [] then lit ''/api/prices?'' @ queryString
                      else lit ''/api/prices'')
      in request net endpoint no_options w)"

definition getItem :: "'a network \<Rightarrow> jsstring \<Rightarrow> world \<Rightarrow> ((error + 'a) \<times> world) option" where
  "getItem net sku w =
     (case encodeURIComponent sku of
        Inl e \<Rightarrow> throw e w
      | Inr s \<Rightarrow> request net (lit ''/api/item/'' @ s) no_options w)"

definition getItemHistory ::
  "'a network \<Rightarrow> jsstring \<Rightarrow> HistoryOptions \<Rightarrow> world \<Rightarrow> ((error + 'a) \<times> world) option" where
  "getItemHistory net sku options w =
     (let params = append_if_number [] (lit ''start'') (history_start options);
          params = append_if_number params (lit ''end'') (history_end options);
          queryString = params_toString params
      in case encodeURIComponent sku of
           Inl e \<Rightarrow> throw e w
         | Inr s \<Rightarrow>
             request net
               (if queryString \<noteq> [] then lit ''/api/item-history/'' @ s @ lit ''?'' @ queryString
                else lit ''/api/item-history/'' @ s)
               no_options w)"

definition getItemStats :: "'a network \<Rightarrow> jsstring \<Rightarrow> world \<Rightarrow> ((error + 'a) \<times> world) option" where
  "getItemStats net sku w =
     (case encodeURIComponent sku of
        Inl e \<Rightarrow> throw e w
      | Inr s \<Rightarrow> request net (lit ''/api/item-stats/'' @ s) no_options w)"

definition getItemsBulk :: "'a network \<Rightarrow> jsstring list \<Rightarrow> world \<Rightarrow> ((error + 'a) \<times> world) option" where
  "getItemsBulk net skus w =
     request net (lit ''/api/items-bulk'')
       \<lparr> init_method = Some (lit ''POST''),
         init_body = Some (JSON_stringify (JObject [(lit ''skus'', JArray (map JString skus))])),
         init_headers = None \<rparr> w"

definition getSnapshot :: "'a network \<Rightarrow> number \<Rightarrow> world \<Rightarrow> ((error + 'a) \<times> world) option" where
  "getSnapshot net timestamp w =
     request net (lit ''/api/snapshot/'' @ Number_toString timestamp) no_options w"

definition search :: "'a network \<Rightarrow> SearchOptions \<Rightarrow> world \<Rightarrow> ((error + 'a) \<times> world) option" where
  "search net options w =
     (let params = params_append [] (lit ''q'') (query options);
          params = append_if_number params (lit ''limit'') (search_limit options)
      in request net (lit ''/api/search?'' @ params_toString params) no_options w)"

definition compareItems ::
  "'a network \<Rightarrow> jsstring \<Rightarrow> jsstring \<Rightarrow> world \<Rightarrow> ((error + 'a) \<times> world) option" where
  "compareItems net sku1 sku2 w =
     (case encodeURIComponent sku1 of
        Inl e \<Rightarrow> throw e w
      | Inr s1 \<Rightarrow>
          (case encodeURIComponent sku2 of
             Inl e \<Rightarrow> throw e w
           | Inr s2 \<Rightarrow> request net (lit ''/api/compare/'' @ s1 @ lit ''/'' @ s2) no_options w))"

definition getCacheStats :: "'a network \<Rightarrow> world \<Rightarrow> ((error + 'a) \<times> world) option" where
  "getCacheStats net w = request net (lit ''/api/cache-stats'') no_options w"

text \<open>
  \<open>getGraphUrl\<close> is synchronous and calls nothing of the environment: it reads
  \<open>this.baseUrl\<close> and returns a string or throws.
\<close>

definition getGraphUrl :: "jsstring \<Rightarrow> GraphOptions \<Rightarrow> world \<Rightarrow> error + jsstring" where
  "getGraphUrl sku options w =
     (let params = (if header options = Some False
                    then params_append [] (lit ''header'') (lit ''false'') else []);
          params = append_if_number params (lit ''height'') (height options);
          params = append_if_string params (lit ''width'') (width options);
          queryString = params_toString params
      in case encodeURIComponent sku of
           Inl e \<Rightarrow> Inl e
         | Inr s \<Rightarrow>
             Inr (if queryString \<noteq> []
                  then baseUrl (this w) @ lit ''/api/graph/'' @ s @ lit ''?'' @ queryString
                  else baseUrl (this w) @ lit ''/api/graph/'' @ s))"

text \<open>A call of an endpoint method of the class, and a sequence of such calls.\<close>

datatype pricedb_call =
    Health
  | GetItems
  | GetLatestPrices
  | GetPrices PaginationOptions
  | GetItem jsstring
  | GetItemHistory jsstring HistoryOptions
  | GetItemStats jsstring
  | GetItemsBulk "jsstring list"
  | GetSnapshot number
  | Search SearchOptions
  | CompareItems jsstring jsstring
  | GetCacheStats

fun pricedb_invoke :: "'a network \<Rightarrow> pricedb_call \<Rightarrow> world \<Rightarrow> ((error + 'a) \<times> world) option" where
  "pricedb_invoke net Health w = health net w"
| "pricedb_invoke net GetItems w = getItems net w"
| "pricedb_invoke net GetLatestPrices w = getLatestPrices net w"
| "pricedb_invoke net (GetPrices options) w = getPrices net options w"
| "pricedb_invoke net (GetItem sku) w = getItem net sku w"
| "pricedb_invoke net (GetItemHistory sku options) w = getItemHistory net sku options w"
| "pricedb_invoke net (GetItemStats sku) w = getItemStats net sku w"
| "pricedb_invoke net (GetItemsBulk skus) w = getItemsBulk net skus w"
| "pricedb_invoke net (GetSnapshot timestamp) w = getSnapshot net timestamp w"
| "pricedb_invoke net (Search options) w = search net options w"
| "pricedb_invoke net (CompareItems sku1 sku2) w = compareItems net sku1 sku2 w"
| "pricedb_invoke net GetCacheStats w = getCacheStats net w"

fun pricedb_run :: "'a network \<Rightarrow> pricedb_call list \<Rightarrow> world \<Rightarrow> world option" where
  "pricedb_run net [] w = Some w"
| "pricedb_run net (c # cs) w =
     (case pricedb_invoke net c w of None \<Rightarrow> None | Some (r, w') \<Rightarrow> pricedb_run net cs w')"

subsection \<open>Endpoint methods of SpellsClient\<close>

text \<open>
  \<open>new URLSearchParams({a: x, b: y})\<close> holds the pairs in the order of the object
  literal.  The argument of \<open>predictSpellItem\<close> is the object the caller built, with its
  keys in the caller's order; \<open>JSON.stringify(options)\<close> writes it as it is.
\<close>

record PredictOptions =
  spells :: jsstring
  item :: jsstring

record ItemSpellPremiumOptions =
  premium_item :: jsstring
  premium_ids :: jsstring

definition predict :: "'a network \<Rightarrow> PredictOptions \<Rightarrow> world \<Rightarrow> ((error + 'a) \<times> world) option" where
  "predict net options w =
     (let params = [(lit ''spells'', spells options), (lit ''item'', item options)]
      in request net (lit ''/api/spell/predict?'' @ params_toString params) no_options w)"

definition predictSpellItem ::
  "'a network \<Rightarrow> json \<Rightarrow> world \<Rightarrow> ((error + 'a) \<times> world) option" where
  "predictSpellItem net options w =
     request net (lit ''/api/spell/predict-spell-item'')
       \<lparr> init_method = Some (lit ''POST''),
         init_body = Some (JSON_stringify options),
         init_headers = None \<rparr> w"

definition getSpellValue :: "'a network \<Rightarrow> jsstring \<Rightarrow> world \<Rightarrow> ((error + 'a) \<times> world) option" where
  "getSpellValue net ids w =
     (let params = [(lit ''ids'', ids)]
      in request net (lit ''/api/spell/spell-value?'' @ params_toString params) no_options w)"

definition getSpellAnalytics :: "'a network \<Rightarrow> world \<Rightarrow> ((error + 'a) \<times> world) option" where
  "getSpellAnalytics net w = request net (lit ''/api/spell/spell-analytics'') no_options w"

definition getItemSpellPremium ::
  "'a network \<Rightarrow> ItemSpellPremiumOptions \<Rightarrow> world \<Rightarrow> ((error + 'a) \<times> world) option" where
  "getItemSpellPremium net options w =
     (let params = [(lit ''item'', premium_item options), (lit ''ids'', premium_ids options)]
      in request net (lit ''/api/spell/item-spell-premium?'' @ params_toString params) no_options w)"

definition spellIdToName :: "'a network \<Rightarrow> number \<Rightarrow> world \<Rightarrow> ((error + 'a) \<times> world) option" where
  "spellIdToName net n w =
     (let params = [(lit ''id'', Number_toString n)]
      in request net (lit ''/api/spell/spell-id-to-name?'' @ params_toString params) no_options w)"

definition spellNameToId :: "'a network \<Rightarrow> jsstring \<Rightarrow> world \<Rightarrow> ((error + 'a) \<times> world) option" where
  "spellNameToId net name w =
     (let params = [(lit ''name'', name)]
      in request net (lit ''/api/spell/spell-name-to-id?'' @ params_toString params) no_options w)"

definition getSpells :: "'a network \<Rightarrow> world \<Rightarrow> ((error + 'a) \<times> world) option" where
  "getSpells net w = request net (lit ''/api/spell/spells'') no_options w"

definition getFetcherStatus :: "'a network \<Rightarrow> world \<Rightarrow> ((error + 'a) \<times> world) option" where
  "getFetcherStatus net w = request net (lit ''/api/spell/fetcher-status'') no_options w"

definition spells_health :: "'a network \<Rightarrow> world \<Rightarrow> ((error + 'a) \<times> world) option" where
  "spells_health net w = request net (lit ''/api/spell/health'') no_options w"

definition getStats :: "'a network \<Rightarrow> world \<Rightarrow> ((error + 'a) \<times> world) option" where
  "getStats net w = request net (lit ''/api/stats'') no_options w"

definition getStatusProxy :: "'a network \<Rightarrow> world \<Rightarrow> ((error + 'a) \<times> world) option" where
  "getStatusProxy net w = request net (lit ''/api/spell/status-proxy'') no_options w"

datatype spells_call =
    Predict PredictOptions
  | PredictSpellItem json
  | GetSpellValue jsstring
  | GetSpellAnalytics
  | GetItemSpellPremium ItemSpellPremiumOptions
  | SpellIdToName number
  | SpellNameToId jsstring
  | GetSpells
  | GetFetcherStatus
  | SpellsHealth
  | GetStats
  | GetStatusProxy

fun spells_invoke :: "'a network \<Rightarrow> spells_call \<Rightarrow> world \<Rightarrow> ((error + 'a) \<times> world) option" where
  "spells_invoke net (Predict options) w = predict net options w"
| "spells_invoke net (PredictSpellItem options) w = predictSpellItem net options w"
| "spells_invoke net (GetSpellValue ids) w = getSpellValue net ids w"
| "spells_invoke net GetSpellAnalytics w = getSpellAnalytics net w"
| "spells_invoke net (GetItemSpellPremium options) w = getItemSpellPremium net options w"
| "spells_invoke net (SpellIdToName n) w = spellIdToName net n w"
| "spells_invoke net (SpellNameToId name) w = spellNameToId net name w"
| "spells_invoke net GetSpells w = getSpells net w"
| "spells_invoke net GetFetcherStatus w = getFetcherStatus net w"
| "spells_invoke net SpellsHealth w = spells_health net w"
| "spells_invoke net GetStats w = getStats net w"
| "spells_invoke net GetStatusProxy w = getStatusProxy net w"

fun spells_run :: "'a network \<Rightarrow> spells_call list \<Rightarrow> world \<Rightarrow> world option" where
  "spells_run net [] w = Some w"
| "spells_run net (c # cs) w =
     (case spells_invoke net c w of None \<Rightarrow> None | Some (r, w') \<Rightarrow> spells_run net cs w')"

subsection \<open>Reading a run\<close>

text \<open>
  What a call did between two worlds: \<open>fetched\<close> lists the requests handed to
  \<open>fetch\<close>; \<open>issued\<close> keeps of each its URL, method, body and headers.  \<open>skus_of\<close>
  lists the item identifiers a call puts into the path of its URL.  \<open>silent\<close> is
  the network of a server that never responds.  \<open>fails_by\<close> says that a call has
  completed, with an exception, no later than a given time of the clock.
\<close>

fun fetch_of :: "event \<Rightarrow> fetch_call list" where
  "fetch_of (Fetch c) = [c]"
| "fetch_of (SetTimeout tid delay) = []"
| "fetch_of (TimerFired tid) = []"
| "fetch_of (ClearTimeout tid) = []"

definition fetched :: "world \<Rightarrow> world \<Rightarrow> fetch_call list" where
  "fetched w w' = concat (map fetch_of (drop (length (events w)) (events w')))"

definition issued :: "world \<Rightarrow> world \<Rightarrow> (jsstring \<times> jsstring option \<times> jsstring option \<times> headers_map) list" where
  "issued w w' = map (\<lambda>c. (url c, fetch_method c, body c, fetch_headers c)) (fetched w w')"


definition silent :: "'a network" where
  "silent t c = Silent"


definition new_world :: "client \<Rightarrow> world" where
  "new_world c = \<lparr> this = c, clock = 0, timers = [], next_timer = 0, events = [] \<rparr>"

text \<open>
  \<open>no_config\<close> is the constructor's default argument \<open>{}\<close>.  \<open>answers t r\<close> is the
  network of a server that answers every request with the response \<open>r\<close> after \<open>t\<close>
  milliseconds; \<open>drops t\<close> is a connection that fails after \<open>t\<close> milliseconds.
\<close>

definition no_config :: config where
  "no_config = \<lparr> cfg_baseUrl = None, cfg_timeout = None, cfg_headers = None \<rparr>"

definition answers :: "nat \<Rightarrow> 'a response \<Rightarrow> 'a network" where
  "answers t r time c = Responds t r"

definition drops :: "nat \<Rightarrow> 'a network" where
  "drops t time c = Fails t"

text \<open>The item of the round-trip scenario.\<close>

definition test_item :: json where
  "test_item =
     JObject
       [(lit ''name'', JString (lit ''Test Item'')),
        (lit ''sku'', JString (lit ''1;6'')),
        (lit ''buy'', JObject [(lit ''keys'', JNumber (Num 1)), (lit ''metal'', JNumber (Num 2))]),
        (lit ''sell'', JObject [(lit ''keys'', JNumber (Num 1)), (lit ''metal'', JNumber (Num 3))]),
        (lit ''source'', JString (lit ''x'')),
        (lit ''time'', JNumber (Num 1700000000))]"

section \<open>Percent-encoding\<close>

declare Encode.simps(2) [simp del]

lemma hexDigits_length: "length hexDigits = 16"
  by (simp add: hexDigits_def lit_def)

lemma hexDigits_distinct: "distinct hexDigits"
  by (simp add: hexDigits_def lit_def)

lemma hexDigits_inj: "i < 16 \<Longrightarrow> j < 16 \<Longrightarrow> hexDigits ! i = hexDigits ! j \<Longrightarrow> i = j"
  using hexDigits_distinct hexDigits_length by (simp add: nth_eq_iff_index_eq)

lemma unat_code_unit: "unat (c :: code_unit) < 65536"
  using unsigned_less [of c, where ?'a = nat] by simp

lemma percentOctet_length: "length (percentOctet b) = 3"
  by (simp add: percentOctet_def lit_def)

lemma percentOctet_inj:
  assumes "percentOctet a = percentOctet b" "a < 256" "b < 256"
  shows "a = b"
proof -
  have h: "hexDigits ! (a div 16 mod 16) = hexDigits ! (b div 16 mod 16)"
       "hexDigits ! (a mod 16) = hexDigits ! (b mod 16)"
    using assms(1) by (simp_all add: percentOctet_def)
  have "a div 16 mod 16 = b div 16 mod 16"
    by (rule hexDigits_inj [OF _ _ h(1)]) simp_all
  moreover have "a mod 16 = b mod 16"
    by (rule hexDigits_inj [OF _ _ h(2)]) simp_all
  moreover have "a div 16 < 16" "b div 16 < 16"
    using assms(2,3) by simp_all
  ultimately have "a div 16 = b div 16" "a mod 16 = b mod 16"
    by simp_all
  then show ?thesis
    by (metis div_mult_mod_eq)
qed

lemma percentOctet_append_eq:
  "a < 256 \<Longrightarrow> b < 256 \<Longrightarrow> (percentOctet a @ x = percentOctet b @ y) = (a = b \<and> x = y)"
  using percentOctet_inj [of a b] by (auto simp: percentOctet_length)

lemma percentOctets_Cons: "percentOctets (b # bs) = percentOctet b @ percentOctets bs"
  by (simp add: percentOctets_def)

lemma percentOctets_Nil: "percentOctets [] = []"
  by (simp add: percentOctets_def)



lemma div_mod_64_eq: "(a::nat) div 64 = b div 64 \<Longrightarrow> a mod 64 = b mod 64 \<Longrightarrow> a = b"
  by (metis div_mult_mod_eq)

lemma div_4096: "(a::nat) div 4096 = a div 64 div 64"
  by (simp add: div_mult2_eq)

lemma div_262144: "(a::nat) div 262144 = a div 64 div 64 div 64"
  by (simp add: div_mult2_eq)

lemma UTF8_cases [case_names one two three four]:
  obtains "a < 0x80" "UTF8 a = [a]"
  | "0x80 \<le> a" "a < 0x800" "a div 64 < 32" "UTF8 a = [0xC0 + a div 64, 0x80 + a mod 64]"
  | "0x800 \<le> a" "a < 0x10000" "a div 4096 < 16"
      "UTF8 a = [0xE0 + a div 4096, 0x80 + (a div 64) mod 64, 0x80 + a mod 64]"
  | "0x10000 \<le> a"
      "UTF8 a = [0xF0 + a div 262144, 0x80 + (a div 4096) mod 64, 0x80 + (a div 64) mod 64, 0x80 + a mod 64]"
proof -
  consider "a < 0x80" | "0x80 \<le> a" "a < 0x800" | "0x800 \<le> a" "a < 0x10000" | "0x10000 \<le> a"
    by linarith
  then show thesis
  proof cases
    case 1 then show ?thesis using that(1) by (simp add: UTF8_def)
  next
    case 2 then show ?thesis using that(2) by (simp add: UTF8_def)
  next
    case 3 then show ?thesis using that(3) by (simp add: UTF8_def)
  next
    case 4 then show ?thesis using that(4) by (simp add: UTF8_def)
  qed
qed

lemma UTF8_inj_raw:
  assumes "UTF8 a @ s = UTF8 b @ t"
  shows "a = b \<and> s = t"
proof (cases a rule: UTF8_cases)
  case one
  with assms show ?thesis by (cases b rule: UTF8_cases) simp_all
next
  case two
  show ?thesis
  proof (cases b rule: UTF8_cases)
    case one with two assms show ?thesis by simp
  next
    case b2: two
    with two assms have "a div 64 = b div 64" "a mod 64 = b mod 64" "s = t" by simp_all
    then show ?thesis using div_mod_64_eq by blast
  next
    case three with two assms show ?thesis by simp
  next
    case four with two assms show ?thesis by simp
  qed
next
  case three
  show ?thesis
  proof (cases b rule: UTF8_cases)
    case one with three assms show ?thesis by simp
  next
    case two with three assms show ?thesis by simp
  next
    case b3: three
    with three assms have "a div 4096 = b div 4096" "a div 64 mod 64 = b div 64 mod 64"
      "a mod 64 = b mod 64" "s = t" by simp_all
    then have "a div 64 div 64 = b div 64 div 64" "a div 64 mod 64 = b div 64 mod 64"
      "a mod 64 = b mod 64" "s = t" by (simp_all only: div_4096)
    then show ?thesis using div_mod_64_eq by blast
  next
    case four with three assms show ?thesis by simp
  qed
next
  case four
  show ?thesis
  proof (cases b rule: UTF8_cases)
    case one with four assms show ?thesis by simp
  next
    case two with four assms show ?thesis by simp
  next
    case three with four assms show ?thesis by simp
  next
    case b4: four
    with four assms have "a div 262144 = b div 262144" "a div 4096 mod 64 = b div 4096 mod 64"
      "a div 64 mod 64 = b div 64 mod 64" "a mod 64 = b mod 64" "s = t" by simp_all
    then have "a div 64 div 64 div 64 = b div 64 div 64 div 64"
      "a div 64 div 64 mod 64 = b div 64 div 64 mod 64"
      "a div 64 mod 64 = b div 64 mod 64" "a mod 64 = b mod 64" "s = t"
      by (simp_all only: div_4096 div_262144)
    then show ?thesis using div_mod_64_eq by blast
  qed
qed


lemma UTF8_octets:
  assumes "cp < 0x110000" "b \<in> set (UTF8 cp)"
  shows "b < 256"
proof (cases cp rule: UTF8_cases)
  case one with assms show ?thesis by simp
next
  case two
  have "cp mod 64 < 64" by simp
  with two assms show ?thesis by auto
next
  case three
  have "cp mod 64 < 64" "cp div 64 mod 64 < 64" by simp_all
  with three assms show ?thesis by auto
next
  case four
  have "cp mod 64 < 64" "cp div 64 mod 64 < 64" "cp div 4096 mod 64 < 64" by simp_all
  moreover have "cp div 262144 < 16" using assms(1) by simp
  ultimately show ?thesis using four assms by auto
qed

lemma percentOctets_prefix:
  "\<forall>b\<in>set as. b < 256 \<Longrightarrow> \<forall>b\<in>set bs. b < 256 \<Longrightarrow>
   percentOctets as @ x = percentOctets bs @ y \<Longrightarrow> length as \<le> length bs \<Longrightarrow>
   \<exists>cs. bs = as @ cs \<and> x = percentOctets cs @ y"
proof (induction as arbitrary: bs)
  case Nil
  then show ?case by (simp add: percentOctets_Nil)
next
  case (Cons a as)
  then obtain b bs' where bs: "bs = b # bs'" by (cases bs) auto
  from Cons.prems bs have "a < 256" "b < 256" by simp_all
  with Cons.prems(3) bs have ab: "a = b" and rest: "percentOctets as @ x = percentOctets bs' @ y"
    by (simp_all add: percentOctets_Cons percentOctet_append_eq)
  from Cons.IH [OF _ _ rest] Cons.prems bs obtain cs where "bs' = as @ cs" "x = percentOctets cs @ y"
    by auto
  with ab bs show ?case by simp
qed

lemma percentOctets_UTF8_inj_le:
  assumes "percentOctets (UTF8 a) @ x = percentOctets (UTF8 b) @ y"
    and "a < 0x110000" "b < 0x110000" "length (UTF8 a) \<le> length (UTF8 b)"
  shows "a = b \<and> x = y"
proof -
  from percentOctets_prefix [OF _ _ assms(1) assms(4)] UTF8_octets assms(2,3)
  obtain cs where cs: "UTF8 b = UTF8 a @ cs" "x = percentOctets cs @ y" by blast
  then have "UTF8 a @ cs = UTF8 b @ []" by simp
  then have "a = b \<and> cs = []" by (rule UTF8_inj_raw)
  with cs show ?thesis by (simp add: percentOctets_Nil)
qed

lemma percentOctets_UTF8_inj:
  assumes "percentOctets (UTF8 a) @ x = percentOctets (UTF8 b) @ y"
    and "a < 0x110000" "b < 0x110000"
  shows "a = b \<and> x = y"
proof (cases "length (UTF8 a) \<le> length (UTF8 b)")
  case True
  with assms show ?thesis by (rule percentOctets_UTF8_inj_le)
next
  case False
  then have "length (UTF8 b) \<le> length (UTF8 a)" by simp
  with assms(1) [symmetric] assms(3,2) have "b = a \<and> y = x" by (rule percentOctets_UTF8_inj_le)
  then show ?thesis by simp
qed

lemma percentOctets_UTF8_head: "\<exists>t. percentOctets (UTF8 cp) = 0x25 # t"
  by (cases cp rule: UTF8_cases) (simp_all add: percentOctets_Cons percentOctet_def lit_def)

lemma uriUnreserved_not_percent: "uriUnreserved c \<Longrightarrow> c \<noteq> 0x25"
  by (auto simp: uriUnreserved_def uriAlpha_def DecimalDigit_def uriMark_def lit_def apostrophe_def)

lemma pair_range:
  assumes "isLeadingSurrogate c" "isTrailingSurrogate d"
  shows "0x10000 \<le> UTF16SurrogatePairToCodePoint c d" "UTF16SurrogatePairToCodePoint c d < 0x110000"
  using assms unfolding isLeadingSurrogate_def isTrailingSurrogate_def UTF16SurrogatePairToCodePoint_def
  by arith+

lemma pair_inj:
  assumes "isLeadingSurrogate c" "isTrailingSurrogate d" "isLeadingSurrogate c'" "isTrailingSurrogate d'"
    and eq: "UTF16SurrogatePairToCodePoint c d = UTF16SurrogatePairToCodePoint c' d'"
  shows "c = c' \<and> d = d'"
proof -
  define h l h' l' where "h = unat c - 0xD800" and "l = unat d - 0xDC00"
    and "h' = unat c' - 0xD800" and "l' = unat d' - 0xDC00"
  have l: "l < 1024" "l' < 1024"
    using assms(2,4) unfolding l_def l'_def isTrailingSurrogate_def by arith+
  from eq have e: "h * 1024 + l = h' * 1024 + l'"
    by (simp add: UTF16SurrogatePairToCodePoint_def h_def l_def h'_def l'_def)
  from e l have "h = h'"
    by (metis add.commute div_mult_self3 div_less add.right_neutral zero_neq_numeral)
  with e have "l = l'" by simp
  from \<open>h = h'\<close> assms(1,3) have "unat c = unat c'"
    unfolding h_def h'_def isLeadingSurrogate_def by arith
  moreover from \<open>l = l'\<close> assms(2,4) have "unat d = unat d'"
    unfolding l_def l'_def isTrailingSurrogate_def by arith
  ultimately show ?thesis by (simp add: word_unat_eq_iff)
qed

lemma prepend_Inr: "prepend p r = Inr s \<longleftrightarrow> (\<exists>s'. r = Inr s' \<and> s = p @ s')"
  by (auto simp: prepend_def split: sum.splits)

lemma Encode_Cons_cases [consumes 1, case_names copy single pair]:
  assumes "Encode (c # cs) = Inr r"
  obtains r' where "uriUnreserved c" "Encode cs = Inr r'" "r = c # r'"
  | r' where "\<not> uriUnreserved c" "\<not> isLeadingSurrogate c" "\<not> isTrailingSurrogate c"
      "Encode cs = Inr r'" "r = percentOctets (UTF8 (unat c)) @ r'"
  | d ds r' where "\<not> uriUnreserved c" "isLeadingSurrogate c" "cs = d # ds" "isTrailingSurrogate d"
      "Encode ds = Inr r'" "r = percentOctets (UTF8 (UTF16SurrogatePairToCodePoint c d)) @ r'"
  using assms by (auto simp: Encode.simps(2) prepend_Inr split: if_splits list.splits)

lemma percentOctets_UTF8_nonempty: "percentOctets (UTF8 cp) \<noteq> []"
  using percentOctets_UTF8_head [of cp] by auto

lemma Encode_Cons_nonempty: "Encode (c # cs) = Inr r \<Longrightarrow> r \<noteq> []"
  by (erule Encode_Cons_cases) (simp_all add: percentOctets_UTF8_nonempty)

lemma Encode_inj: "Encode xs = Inr r \<Longrightarrow> Encode ys = Inr r \<Longrightarrow> xs = ys"
proof (induction xs arbitrary: ys r rule: length_induct)
  case (1 xs)
  have IH: "\<And>zs ys' r'. length zs < length xs \<Longrightarrow> Encode zs = Inr r' \<Longrightarrow> Encode ys' = Inr r' \<Longrightarrow> zs = ys'"
    using "1.IH" by blast
  note px = "1.prems"(1) and py = "1.prems"(2)
  show ?case
  proof (cases xs)
    case Nil
    with px have "r = []" by simp
    with py have "ys = []" by (cases ys) (auto dest: Encode_Cons_nonempty)
    with Nil show ?thesis by simp
  next
    case (Cons c cs)
    with px have "r \<noteq> []" by (auto dest: Encode_Cons_nonempty)
    with py obtain c' cs' where ys: "ys = c' # cs'"
      by (cases ys) auto
    have len: "length cs < length xs" using Cons by simp
    from px [unfolded Cons] show ?thesis
    proof (cases rule: Encode_Cons_cases)
      case (copy r1)
      from py [unfolded ys] show ?thesis
      proof (cases rule: Encode_Cons_cases)
        case c2: (copy r2)
        with copy have "c = c'" "Encode cs' = Inr r1" by simp_all
        with IH [OF len copy(2)] Cons ys show ?thesis by simp
      next
        case (single r2)
        with copy percentOctets_UTF8_head [of "unat c'"] uriUnreserved_not_percent [of c]
        show ?thesis by auto
      next
        case (pair d ds r2)
        with copy percentOctets_UTF8_head [of "UTF16SurrogatePairToCodePoint c' d"]
          uriUnreserved_not_percent [of c]
        show ?thesis by auto
      qed
    next
      case (single r1)
      have c: "unat c < 0x110000" using unat_code_unit [of c] by simp
      from py [unfolded ys] show ?thesis
      proof (cases rule: Encode_Cons_cases)
        case (copy r2)
        with single percentOctets_UTF8_head [of "unat c"] uriUnreserved_not_percent [of c']
        show ?thesis by auto
      next
        case s2: (single r2)
        have c': "unat c' < 0x110000" using unat_code_unit [of c'] by simp
        from single(5) s2(5) have "percentOctets (UTF8 (unat c)) @ r1 = percentOctets (UTF8 (unat c')) @ r2"
          by simp
        from percentOctets_UTF8_inj [OF this c c'] have "unat c = unat c'" "r1 = r2" by simp_all
        then have "c = c'" "Encode cs' = Inr r1" using s2 by (simp_all add: word_unat_eq_iff)
        with IH [OF len single(4)] Cons ys show ?thesis by simp
      next
        case (pair d ds r2)
        note r = pair_range [OF pair(2,4)]
        from single(5) pair(6) have "percentOctets (UTF8 (unat c)) @ r1 =
            percentOctets (UTF8 (UTF16SurrogatePairToCodePoint c' d)) @ r2"
          by simp
        from percentOctets_UTF8_inj [OF this c r(2)] r(1) unat_code_unit [of c]
        show ?thesis by simp
      qed
    next
      case (pair d ds r1)
      note r = pair_range [OF pair(2,4)]
      from py [unfolded ys] show ?thesis
      proof (cases rule: Encode_Cons_cases)
        case (copy r2)
        with pair percentOctets_UTF8_head [of "UTF16SurrogatePairToCodePoint c d"]
          uriUnreserved_not_percent [of c']
        show ?thesis by auto
      next
        case (single r2)
        have c': "unat c' < 0x110000" using unat_code_unit [of c'] by simp
        from single(5) pair(6) have "percentOctets (UTF8 (UTF16SurrogatePairToCodePoint c d)) @ r1 =
            percentOctets (UTF8 (unat c')) @ r2"
          by simp
        from percentOctets_UTF8_inj [OF this r(2) c'] r(1) unat_code_unit [of c']
        show ?thesis by simp
      next
        case p2: (pair d' ds' r2)
        note r' = pair_range [OF p2(2,4)]
        from pair(6) p2(6) have "percentOctets (UTF8 (UTF16SurrogatePairToCodePoint c d)) @ r1 =
            percentOctets (UTF8 (UTF16SurrogatePairToCodePoint c' d')) @ r2"
          by simp
        from percentOctets_UTF8_inj [OF this r(2) r'(2)]
        have e: "UTF16SurrogatePairToCodePoint c d = UTF16SurrogatePairToCodePoint c' d'" "r1 = r2"
          by simp_all
        from pair_inj [OF pair(2,4) p2(2,4) e(1)] have cd: "c = c'" "d = d'" by simp_all
        have "length ds < length xs" using Cons pair(3) by simp
        from IH [OF this pair(5)] p2(5) e(2) have "ds = ds'" by simp
        with cd show ?thesis using Cons ys pair(3) p2(3) by simp
      qed
    qed
  qed
qed

lemma hexDigits_unreserved: "u \<in> set hexDigits \<Longrightarrow> uriUnreserved u"
  by (auto simp: hexDigits_def lit_def uriUnreserved_def uriAlpha_def DecimalDigit_def)

lemma percentOctet_chars: "u \<in> set (percentOctet b) \<Longrightarrow> uriUnreserved u \<or> u = 0x25"
proof -
  have "hexDigits ! (b div 16 mod 16) \<in> set hexDigits" "hexDigits ! (b mod 16) \<in> set hexDigits"
    by (simp_all add: hexDigits_length)
  then show "u \<in> set (percentOctet b) \<Longrightarrow> uriUnreserved u \<or> u = 0x25"
    by (auto simp: percentOctet_def lit_def dest: hexDigits_unreserved)
qed

lemma percentOctets_chars: "u \<in> set (percentOctets bs) \<Longrightarrow> uriUnreserved u \<or> u = 0x25"
  by (auto simp: percentOctets_def dest: percentOctet_chars)

lemma Encode_chars: "Encode xs = Inr r \<Longrightarrow> u \<in> set r \<Longrightarrow> uriUnreserved u \<or> u = 0x25"
proof (induction xs arbitrary: r rule: length_induct)
  case (1 xs)
  have IH: "\<And>zs r'. length zs < length xs \<Longrightarrow> Encode zs = Inr r' \<Longrightarrow> u \<in> set r' \<Longrightarrow> uriUnreserved u \<or> u = 0x25"
    using "1.IH" by blast
  show ?case
  proof (cases xs)
    case Nil
    with "1.prems" show ?thesis by simp
  next
    case (Cons c cs)
    have len: "length cs < length xs" using Cons by simp
    from "1.prems"(1) [unfolded Cons] show ?thesis
    proof (cases rule: Encode_Cons_cases)
      case (copy r')
      with "1.prems"(2) IH [OF len copy(2)] show ?thesis by auto
    next
      case (single r')
      with "1.prems"(2) IH [OF len single(4)] percentOctets_chars show ?thesis by auto
    next
      case (pair d ds r')
      have "length ds < length xs" using Cons pair(3) by simp
      from IH [OF this pair(5)] "1.prems"(2) pair(6) percentOctets_chars show ?thesis by auto
    qed
  qed
qed

lemma Encode_no_delimiter:
  assumes "Encode xs = Inr r"
  shows "set r \<inter> set (lit ''/?#&= '') = {}"
proof -
  have "\<not> (uriUnreserved u \<or> u = 0x25)" if "u \<in> set (lit ''/?#&= '')" for u
    using that by (auto simp: lit_def uriUnreserved_def uriAlpha_def DecimalDigit_def uriMark_def apostrophe_def)
  with Encode_chars [OF assms] show ?thesis by blast
qed

section \<open>The path of a request\<close>

lemma plain_facts:
  assumes "uriUnreserved c \<or> c = 0x25"
  shows "\<not> isLeadingSurrogate c" "\<not> isTrailingSurrogate c" "0x20 < unat c"
    "c \<noteq> 0x2F" "c \<noteq> 0x5C" "c \<noteq> 0x3F" "c \<noteq> 0x23" "c \<noteq> 0x09" "c \<noteq> 0x0A" "c \<noteq> 0x0D"
    "utf8_percent_encode (unat c) = [c]"
  using assms
  by (auto simp: uriUnreserved_def uriAlpha_def DecimalDigit_def uriMark_def lit_def apostrophe_def
      isLeadingSurrogate_def isTrailingSurrogate_def utf8_percent_encode_def path_percent_encode_set_def)

lemma scalarValues_append:
  "\<forall>c \<in> set s. \<not> isLeadingSurrogate c \<and> \<not> isTrailingSurrogate c \<Longrightarrow>
   scalarValues (s @ t) = map unat s @ scalarValues t"
  by (induction s) simp_all

lemma path_state_plain:
  "\<forall>c \<in> set s. uriUnreserved c \<or> c = 0x25 \<Longrightarrow>
   path_state path buffer (map unat s @ rest) = path_state path (buffer @ s) rest"
proof (induction s arbitrary: buffer)
  case Nil
  show ?case by simp
next
  case (Cons c s)
  then have c: "uriUnreserved c \<or> c = 0x25" by simp
  have n: "unat c \<noteq> 0x2F" "unat c \<noteq> 0x5C" "unat c \<noteq> 0x3F" "unat c \<noteq> 0x23"
    using plain_facts(4-7) [OF c] by (simp_all add: word_unat_eq_iff)
  from Cons.IH [of "buffer @ [c]"] Cons.prems n plain_facts(11) [OF c]
  show ?case by simp
qed

lemma path_state_segments:
  assumes "\<forall>c \<in> set s0. uriUnreserved c \<or> c = 0x25"
    and "\<forall>s \<in> set segs. \<forall>c \<in> set s. uriUnreserved c \<or> c = 0x25"
    and "\<forall>s \<in> set (s0 # segs). \<not> single_dot_segment s \<and> \<not> double_dot_segment s"
    and "tail = [] \<or> (\<exists>z. tail = 0x3F # z)"
  shows "path_state path [] (map unat s0 @ concat (map (\<lambda>s. 0x2F # map unat s) segs) @ tail) =
         path @ s0 # segs"
  using assms
proof (induction segs arbitrary: path s0)
  case Nil
  then show ?case
    using path_state_plain [of s0 path "[]" tail]
    by (auto simp: end_segment_def)
next
  case (Cons s1 segs)
  from Cons.prems have s0: "\<not> single_dot_segment s0" "\<not> double_dot_segment s0" by simp_all
  have "path_state path [] (map unat s0 @ concat (map (\<lambda>s. 0x2F # map unat s) (s1 # segs)) @ tail) =
        path_state path s0 (0x2F # map unat s1 @ concat (map (\<lambda>s. 0x2F # map unat s) segs) @ tail)"
    using path_state_plain [OF Cons.prems(1), of path "[]"] by simp
  also have "\<dots> = path_state (path @ [s0]) [] (map unat s1 @ concat (map (\<lambda>s. 0x2F # map unat s) segs) @ tail)"
    using s0 by (simp add: end_segment_def)
  also have "\<dots> = (path @ [s0]) @ s1 # segs"
    using Cons.prems by (intro Cons.IH) simp_all
  finally show ?case by simp
qed

lemma url_path_prepare:
  assumes p: "\<forall>c \<in> set p. uriUnreserved c \<or> c = 0x25 \<or> c = 0x2F"
    and q: "q = [] \<or> (\<exists>qs. q = 0x3F # qs)"
  shows "\<exists>tail. url_path (0x2F # p @ q) = path_state [] [] (map unat p @ tail) \<and>
           (tail = [] \<or> (\<exists>z. tail = 0x3F # z))"
proof -
  let ?P = "\<lambda>c :: code_unit. unat c \<le> 0x20"
  let ?F = "\<lambda>c :: code_unit. c \<noteq> 0x09 \<and> c \<noteq> 0x0A \<and> c \<noteq> 0x0D"
  have pc: "\<not> ?P c \<and> ?F c \<and> \<not> isLeadingSurrogate c \<and> \<not> isTrailingSurrogate c"
    if "c \<in> set (0x2F # p)" for c
  proof (cases "c = 0x2F")
    case True
    then show ?thesis by (simp add: isLeadingSurrogate_def isTrailingSurrogate_def)
  next
    case False
    with that p have "uriUnreserved c \<or> c = 0x25" by auto
    from plain_facts(1-3,8-10) [OF this] show ?thesis by simp
  qed
  have sv: "scalarValues ((0x2F # p) @ t) = map unat (0x2F # p) @ scalarValues t" for t
    by (rule scalarValues_append) (use pc in blast)
  have filt: "filter ?F (0x2F # p) = 0x2F # p"
    using pc by (intro filter_True) blast
  from q show ?thesis
  proof
    assume q: "q = []"
    have "dropWhile ?P (rev (0x2F # p)) = rev (0x2F # p)"
    proof (cases p rule: rev_cases)
      case Nil
      then show ?thesis by simp
    next
      case (snoc ys y)
      with pc [of y] show ?thesis by simp
    qed
    then have "rev (dropWhile ?P (rev (0x2F # p @ q))) = 0x2F # p"
      using q by (metis append_Nil2 rev_rev_ident)
    with filt sv [of "[]"] have "url_path (0x2F # p @ q) = path_state [] [] (map unat p @ [])"
      by (simp add: url_path_def del: filter.simps)
    then show ?thesis by blast
  next
    assume "\<exists>qs. q = 0x3F # qs"
    then obtain qs where q: "q = 0x3F # qs" by blast
    have "dropWhile ?P (rev qs @ 0x3F # rev (0x2F # p)) = dropWhile ?P (rev qs) @ 0x3F # rev (0x2F # p)"
      by (rule dropWhile_append3) simp
    then have "rev (dropWhile ?P (rev (0x2F # p @ q))) = (0x2F # p) @ 0x3F # rev (dropWhile ?P (rev qs))"
      using q by simp
    moreover have "filter ?F ((0x2F # p) @ 0x3F # t) = (0x2F # p) @ 0x3F # filter ?F t" for t
      using filt by simp
    moreover have "scalarValues ((0x2F # p) @ 0x3F # t) = map unat (0x2F # p) @ 0x3F # scalarValues t" for t
      using sv [of "0x3F # t"] by (simp add: isLeadingSurrogate_def isTrailingSurrogate_def)
    ultimately have "url_path (0x2F # p @ q) =
        path_state [] [] (map unat p @ 0x3F # scalarValues (filter ?F (rev (dropWhile ?P (rev qs)))))"
      by (simp add: url_path_def del: filter.simps)
    then show ?thesis by blast
  qed
qed

lemma url_path_segments:
  assumes "\<forall>s \<in> set (s0 # segs). \<forall>c \<in> set s. uriUnreserved c \<or> c = 0x25"
    and "\<forall>s \<in> set (s0 # segs). \<not> single_dot_segment s \<and> \<not> double_dot_segment s"
    and "q = [] \<or> (\<exists>qs. q = 0x3F # qs)"
  shows "url_path (0x2F # (s0 @ concat (map ((#) 0x2F) segs)) @ q) = s0 # segs"
proof -
  have "\<forall>c \<in> set (s0 @ concat (map ((#) 0x2F) segs)). uriUnreserved c \<or> c = 0x25 \<or> c = 0x2F"
    using assms(1) by auto
  from url_path_prepare [OF this assms(3)] obtain tail where
    t: "url_path (0x2F # (s0 @ concat (map ((#) 0x2F) segs)) @ q) =
          path_state [] [] (map unat (s0 @ concat (map ((#) 0x2F) segs)) @ tail)"
      "tail = [] \<or> (\<exists>z. tail = 0x3F # z)"
    by blast
  have "map unat (concat (map ((#) 0x2F) segs)) = concat (map (\<lambda>s. 0x2F # map unat s) segs)"
    by (induction segs) simp_all
  then have "map unat (s0 @ concat (map ((#) 0x2F) segs)) @ tail =
      map unat s0 @ concat (map (\<lambda>s. 0x2F # map unat s) segs) @ tail"
    by simp
  with t(1) path_state_segments [of s0 segs tail "[]"] assms(1,2) t(2)
  show ?thesis by simp
qed

lemma ascii_lower_eq:
  "ascii_lower c = 0x25 \<longleftrightarrow> c = 0x25" "ascii_lower c = 0x2E \<longleftrightarrow> c = 0x2E"
  by (auto simp: ascii_lower_def word_unat_eq_iff unat_word_ariths)

lemma hexDigits_lower:
  assumes "h \<in> set hexDigits"
  shows "ascii_lower h = 0x32 \<Longrightarrow> h = hexDigits ! 2" "ascii_lower h = 0x65 \<Longrightarrow> h = hexDigits ! 14"
  using assms by (auto simp: hexDigits_def lit_def ascii_lower_def)

lemma percentOctet_lower_2e:
  assumes "map ascii_lower (percentOctet b) = lit ''%2e''"
  shows "b div 16 mod 16 = 2 \<and> b mod 16 = 14"
proof -
  have m: "hexDigits ! (b div 16 mod 16) \<in> set hexDigits" "hexDigits ! (b mod 16) \<in> set hexDigits"
    by (simp_all add: hexDigits_length)
  from assms have "ascii_lower (hexDigits ! (b div 16 mod 16)) = 0x32"
    "ascii_lower (hexDigits ! (b mod 16)) = 0x65"
    by (simp_all add: percentOctet_def lit_def)
  with hexDigits_lower [OF m(1)] hexDigits_lower [OF m(2)]
  have "hexDigits ! (b div 16 mod 16) = hexDigits ! 2" "hexDigits ! (b mod 16) = hexDigits ! 14"
    by simp_all
  then have "b div 16 mod 16 = 2" "b mod 16 = 14"
    by (auto dest!: hexDigits_inj [rotated 2])
  then show ?thesis by simp
qed

lemma UTF8_first_octet_2e:
  assumes "cp < 0x110000" "UTF8 cp = b # bs" "b div 16 mod 16 = 2" "b mod 16 = 14"
  shows "cp = 46"
proof -
  have small: "b div 16 = 2" if "b < 256"
  proof -
    from that have "b div 16 < 16" by simp
    with assms(3) show ?thesis by simp
  qed
  show ?thesis
  proof (cases cp rule: UTF8_cases)
    case one
    with assms(2) have b: "b = cp" "b < 256" by simp_all
    from small [OF b(2)] assms(4) have "b = 2 * 16 + 14"
      using div_mult_mod_eq [of b 16] by simp
    with b show ?thesis by simp
  next
    case two
    with assms(2) have b: "b = 0xC0 + cp div 64" by simp
    with two(3) have "b < 256" "192 \<le> b" by simp_all
    from small [OF this(1)] this(2) show ?thesis
      using div_mult_mod_eq [of b 16] assms(4) by simp
  next
    case three
    with assms(2) have b: "b = 0xE0 + cp div 4096" by simp
    with three(3) have "b < 256" "192 \<le> b" by simp_all
    from small [OF this(1)] this(2) show ?thesis
      using div_mult_mod_eq [of b 16] assms(4) by simp
  next
    case four
    have "cp div 262144 < 16" using assms(1) by simp
    moreover from four assms(2) have b: "b = 0xF0 + cp div 262144" by simp
    ultimately have "b < 256" "192 \<le> b" by simp_all
    from small [OF this(1)] this(2) show ?thesis
      using div_mult_mod_eq [of b 16] assms(4) by simp
  qed
qed

lemma Encode_not_percent_2e:
  assumes "Encode xs = Inr e"
  shows "map ascii_lower (take 3 e) \<noteq> lit ''%2e''"
proof (cases xs)
  case Nil
  with assms show ?thesis by (simp add: lit_def)
next
  case (Cons c cs)
  have oct: "map ascii_lower (take 3 (percentOctets (UTF8 cp) @ r)) = lit ''%2e'' \<Longrightarrow> cp = 46"
    if "cp < 0x110000" for cp r
  proof -
    assume a: "map ascii_lower (take 3 (percentOctets (UTF8 cp) @ r)) = lit ''%2e''"
    obtain b bs where u: "UTF8 cp = b # bs"
      by (cases cp rule: UTF8_cases) simp_all
    then have "take 3 (percentOctets (UTF8 cp) @ r) = percentOctet b"
      by (simp add: percentOctets_Cons percentOctet_length)
    with a have "map ascii_lower (percentOctet b) = lit ''%2e''"
      by (simp only:)
    from percentOctet_lower_2e [OF this] UTF8_first_octet_2e [OF that u]
    show "cp = 46" by blast
  qed
  from assms [unfolded Cons] show ?thesis
  proof (cases rule: Encode_Cons_cases)
    case (copy r')
    with uriUnreserved_not_percent [of c] ascii_lower_eq(1) [of c] show ?thesis
      by (auto simp: lit_def)
  next
    case (single r')
    have "unat c < 0x110000" using unat_code_unit [of c] by simp
    from oct [OF this, of r'] single have "unat c = 46" if "map ascii_lower (take 3 e) = lit ''%2e''"
      using that by simp
    moreover have "uriUnreserved c" if "unat c = 46"
    proof -
      from that have "c = 0x2E" by (simp add: word_unat_eq_iff)
      then show ?thesis by (simp add: uriUnreserved_def uriMark_def lit_def)
    qed
    ultimately show ?thesis using single(1) by blast
  next
    case (pair d ds r')
    from pair_range [OF pair(2,4)] oct [of "UTF16SurrogatePairToCodePoint c d" r'] pair(6)
    show ?thesis by auto
  qed
qed

lemma Encode_dot: "Encode (lit ''.'') = Inr (lit ''.'')" "Encode (lit ''..'') = Inr (lit ''..'')"
  by (simp_all add: Encode.simps lit_def uriUnreserved_def uriMark_def prepend_def)

lemma Encode_dot_segments:
  assumes "Encode xs = Inr e"
  shows "single_dot_segment e \<longleftrightarrow> xs = lit ''.''" "double_dot_segment e \<longleftrightarrow> xs = lit ''..''"
proof -
  have no3: "map ascii_lower e \<noteq> lit ''%2e''" "map ascii_lower e \<noteq> lit ''%2e.''"
    "map ascii_lower e \<noteq> lit ''%2e%2e''"
  proof -
    note n = Encode_not_percent_2e [OF assms]
    show "map ascii_lower e \<noteq> lit ''%2e''"
    proof
      assume a: "map ascii_lower e = lit ''%2e''"
      then have "length e = 3" by (metis length_map lit_def list.size(3,4) One_nat_def numeral_3_eq_3 length_Cons)
      with a n show False by simp
    qed
    show "map ascii_lower e \<noteq> lit ''%2e.''"
    proof
      assume a: "map ascii_lower e = lit ''%2e.''"
      have "map ascii_lower (take 3 e) = take 3 (map ascii_lower e)" by (simp add: take_map)
      with a n show False by (simp add: lit_def)
    qed
    show "map ascii_lower e \<noteq> lit ''%2e%2e''"
    proof
      assume a: "map ascii_lower e = lit ''%2e%2e''"
      have "map ascii_lower (take 3 e) = take 3 (map ascii_lower e)" by (simp add: take_map)
      with a n show False by (simp add: lit_def)
    qed
  qed
  have dot1: "e = lit ''.''" if "map ascii_lower e = lit ''.''"
    using that ascii_lower_eq(2) by (auto simp: lit_def)
  have dot2: "e = lit ''..''" if "map ascii_lower e = lit ''..''"
    using that ascii_lower_eq(2) by (auto simp: lit_def)
  have no_mixed: "map ascii_lower e \<noteq> lit ''.%2e''"
  proof
    assume a: "map ascii_lower e = lit ''.%2e''"
    then obtain c r where e: "e = c # r" "ascii_lower c = 0x2E" "map ascii_lower r = lit ''%2e''"
      by (auto simp: lit_def)
    then have c: "c = 0x2E" by (simp add: ascii_lower_eq)
    from e(3) have r3: "take 3 r = r"
      by (metis length_map lit_def list.size(3,4) One_nat_def numeral_3_eq_3 length_Cons take_all order_refl)
    from assms e obtain x ys where xs: "xs = x # ys" by (cases xs) auto
    from assms [unfolded xs] show False
    proof (cases rule: Encode_Cons_cases)
      case (copy r')
      with e have "Encode ys = Inr r" by simp
      from Encode_not_percent_2e [OF this] r3 e(3) show False by simp
    next
      case (single r')
      with percentOctets_UTF8_head [of "unat x"] e(1) c show False by auto
    next
      case (pair d ds r')
      with percentOctets_UTF8_head [of "UTF16SurrogatePairToCodePoint x d"] e(1) c show False by auto
    qed
  qed
  show "single_dot_segment e \<longleftrightarrow> xs = lit ''.''"
  proof
    assume "single_dot_segment e"
    with no3(1) dot1 have "e = lit ''.''" by (auto simp: single_dot_segment_def)
    with assms Encode_dot(1) Encode_inj show "xs = lit ''.''" by metis
  next
    assume "xs = lit ''.''"
    with assms Encode_dot(1) have "e = lit ''.''" by simp
    then show "single_dot_segment e" by (simp add: single_dot_segment_def lit_def ascii_lower_def)
  qed
  show "double_dot_segment e \<longleftrightarrow> xs = lit ''..''"
  proof
    assume "double_dot_segment e"
    with no3(2,3) no_mixed dot2 have "e = lit ''..''" by (auto simp: double_dot_segment_def)
    with assms Encode_dot(2) Encode_inj show "xs = lit ''..''" by metis
  next
    assume "xs = lit ''..''"
    with assms Encode_dot(2) have "e = lit ''..''" by simp
    then show "double_dot_segment e" by (simp add: double_dot_segment_def lit_def ascii_lower_def)
  qed
qed

lemma encoded_path:
  assumes "Encode sku = Inr e"
    and "sku \<noteq> lit ''.'' \<and> sku \<noteq> lit ''..''"
    and "(\<forall>c \<in> set a. uriUnreserved c \<or> c = 0x25) \<and>
         \<not> single_dot_segment a \<and> \<not> double_dot_segment a"
    and "(\<forall>c \<in> set b. uriUnreserved c \<or> c = 0x25) \<and>
         \<not> single_dot_segment b \<and> \<not> double_dot_segment b"
    and "q = [] \<or> (\<exists>qs. q = 0x3F # qs)"
  shows "url_path (0x2F # a @ 0x2F # b @ 0x2F # e @ q) = [a, b, e]"
proof -
  from Encode_dot_segments [OF assms(1)] assms(2)
  have d: "\<not> single_dot_segment e" "\<not> double_dot_segment e" by simp_all
  have c: "\<forall>c \<in> set e. uriUnreserved c \<or> c = 0x25"
    using Encode_chars [OF assms(1)] by blast
  from url_path_segments [of a "[b, e]" q] assms(3,4,5) c d
  show ?thesis by simp
qed

lemma encoded_path2:
  assumes "Encode sku = Inr e" "Encode sku2 = Inr e2"
    and "sku \<noteq> lit ''.'' \<and> sku \<noteq> lit ''..''" "sku2 \<noteq> lit ''.'' \<and> sku2 \<noteq> lit ''..''"
    and "(\<forall>c \<in> set a. uriUnreserved c \<or> c = 0x25) \<and>
         \<not> single_dot_segment a \<and> \<not> double_dot_segment a"
    and "(\<forall>c \<in> set b. uriUnreserved c \<or> c = 0x25) \<and>
         \<not> single_dot_segment b \<and> \<not> double_dot_segment b"
  shows "url_path (0x2F # a @ 0x2F # b @ 0x2F # e @ 0x2F # e2) = [a, b, e, e2]"
proof -
  from Encode_dot_segments [OF assms(1)] Encode_dot_segments [OF assms(2)] assms(3,4)
  have d: "\<not> single_dot_segment e" "\<not> double_dot_segment e"
    "\<not> single_dot_segment e2" "\<not> double_dot_segment e2" by simp_all
  have c: "\<forall>c \<in> set e. uriUnreserved c \<or> c = 0x25" "\<forall>c \<in> set e2. uriUnreserved c \<or> c = 0x25"
    using Encode_chars [OF assms(1)] Encode_chars [OF assms(2)] by blast+
  from url_path_segments [of a "[b, e, e2]" "[]"] assms(5,6) c d
  show ?thesis by simp
qed

lemma endpoint_names:
  "(\<forall>c \<in> set (lit ''api''). uriUnreserved c \<or> c = 0x25) \<and>
     \<not> single_dot_segment (lit ''api'') \<and> \<not> double_dot_segment (lit ''api'')"
  "(\<forall>c \<in> set (lit ''item''). uriUnreserved c \<or> c = 0x25) \<and>
     \<not> single_dot_segment (lit ''item'') \<and> \<not> double_dot_segment (lit ''item'')"
  "(\<forall>c \<in> set (lit ''item-stats''). uriUnreserved c \<or> c = 0x25) \<and>
     \<not> single_dot_segment (lit ''item-stats'') \<and> \<not> double_dot_segment (lit ''item-stats'')"
  "(\<forall>c \<in> set (lit ''item-history''). uriUnreserved c \<or> c = 0x25) \<and>
     \<not> single_dot_segment (lit ''item-history'') \<and> \<not> double_dot_segment (lit ''item-history'')"
  "(\<forall>c \<in> set (lit ''graph''). uriUnreserved c \<or> c = 0x25) \<and>
     \<not> single_dot_segment (lit ''graph'') \<and> \<not> double_dot_segment (lit ''graph'')"
  "(\<forall>c \<in> set (lit ''compare''). uriUnreserved c \<or> c = 0x25) \<and>
     \<not> single_dot_segment (lit ''compare'') \<and> \<not> double_dot_segment (lit ''compare'')"
  by (simp_all add: lit_def uriUnreserved_def uriAlpha_def DecimalDigit_def uriMark_def
      apostrophe_def single_dot_segment_def double_dot_segment_def ascii_lower_def)

section \<open>Properties of the transport core\<close>

lemmas request_defs = request_def request_body_def try_finally_def setTimeout_def clearTimeout_def
  fetch_def fire_def settles_before_def response_json_def

lemma request_this:
  "request net ep opts w = Some (r, w') \<Longrightarrow> this w' = this w"
  by (auto simp: request_defs Let_def split: reply.splits if_splits sum.splits option.splits prod.splits)

lemma request_returns: "\<exists>r w'. request net ep opts w = Some (r, w')"
  by (auto simp: request_defs Let_def split: reply.splits if_splits sum.splits option.splits prod.splits)

lemma request_timers:
  "request net ep opts w = Some (r, w') \<Longrightarrow> timers w' = filter (\<lambda>t. fst t \<noteq> next_timer w) (timers w)"
  by (auto simp: request_defs Let_def split: reply.splits if_splits sum.splits option.splits prod.splits)

lemma request_events:
  "request net ep opts w = Some (r, w') \<Longrightarrow>
   \<exists>mid. events w' = events w @ [SetTimeout (next_timer w) (timeout (this w)),
      Fetch \<lparr> url = baseUrl (this w) @ ep, fetch_method = init_method opts, body = init_body opts,
              fetch_headers = headers (this w) ++ spread (init_headers opts), signal = next_timer w \<rparr>] @ mid @ [ClearTimeout (next_timer w)]
     \<and> (mid = [] \<or> mid = [TimerFired (next_timer w)])"
  by (auto simp: request_defs Let_def split: reply.splits if_splits sum.splits option.splits prod.splits)

lemma request_fetched:
  assumes "request net ep opts w = Some (r, w')"
  shows "fetched w w' = [\<lparr> url = baseUrl (this w) @ ep, fetch_method = init_method opts, body = init_body opts,
              fetch_headers = headers (this w) ++ spread (init_headers opts), signal = next_timer w \<rparr>]"
  using request_events [OF assms] by (auto simp: fetched_def)

lemma request_issued:
  assumes "request net ep opts w = Some (r, w')"
  shows "issued w w' = [(baseUrl (this w) @ ep, init_method opts, init_body opts,
              headers (this w) ++ spread (init_headers opts))]"
  using request_fetched [OF assms] by (simp add: issued_def)

lemma request_not_ok:
  assumes "net (clock w) \<lparr> url = baseUrl (this w) @ ep, fetch_method = init_method opts, body = init_body opts,
              fetch_headers = headers (this w) ++ spread (init_headers opts), signal = next_timer w \<rparr> = Responds t r"
    and "\<not> ok r" and "t < timer_delay (timeout (this w))"
  shows "\<exists>w'. request net ep opts w =
           Some (Inl (Error (lit ''HTTP error! status: '' @ int_digits (status r))), w')"
  using assms by (simp add: request_defs Let_def)

lemma request_ok:
  assumes "net (clock w) \<lparr> url = baseUrl (this w) @ ep, fetch_method = init_method opts, body = init_body opts,
              fetch_headers = headers (this w) ++ spread (init_headers opts), signal = next_timer w \<rparr> = Responds t r"
    and "ok r" and "t + body_after r < timer_delay (timeout (this w))"
  shows "\<exists>w'. request net ep opts w = Some (parsed r, w')"
  using assms by (simp add: request_defs Let_def)

lemma request_stalled_body:
  assumes "net (clock w) \<lparr> url = baseUrl (this w) @ ep, fetch_method = init_method opts, body = init_body opts,
              fetch_headers = headers (this w) ++ spread (init_headers opts), signal = next_timer w \<rparr> = Responds t r"
    and "ok r" and "t < timer_delay (timeout (this w))"
    and "timer_delay (timeout (this w)) \<le> t + body_after r"
  shows "\<exists>w'. request net ep opts w = Some (Inl AbortError, w')"
  using assms by (simp add: request_defs Let_def)

lemma request_Fails:
  assumes "net (clock w) \<lparr> url = baseUrl (this w) @ ep, fetch_method = init_method opts, body = init_body opts,
              fetch_headers = headers (this w) ++ spread (init_headers opts), signal = next_timer w \<rparr> = Fails t"
    and "t < timer_delay (timeout (this w))"
  shows "\<exists>w'. request net ep opts w = Some (Inl NetworkError, w')"
  using assms by (simp add: request_defs Let_def)

lemma request_silent:
  "request silent ep opts w =
     Some (Inl AbortError,
       w\<lparr> clock := clock w + timer_delay (timeout (this w)),
          timers := filter (\<lambda>t. fst t \<noteq> next_timer w) (timers w),
          next_timer := Suc (next_timer w),
          events := events w @ [SetTimeout (next_timer w) (timeout (this w)),
            Fetch \<lparr> url = baseUrl (this w) @ ep, fetch_method = init_method opts, body = init_body opts,
              fetch_headers = headers (this w) ++ spread (init_headers opts), signal = next_timer w \<rparr>,
            TimerFired (next_timer w), ClearTimeout (next_timer w)] \<rparr>)"
  by (simp add: request_defs Let_def silent_def)

section \<open>Endpoint methods\<close>

lemma shape_request:
  "init_headers opts = None \<Longrightarrow>
   (\<exists>e. \<forall>net w. request net ep opts w = throw e w) \<or>
   (\<exists>ep' opts'. init_headers opts' = None \<and> (\<forall>net w. request net ep opts w = request net ep' opts' w))"
  by blast

lemma is_request:
  "init_headers opts = None \<Longrightarrow>
   \<exists>ep' opts'. init_headers opts' = None \<and> (\<forall>net w. request net ep opts w = request net ep' opts' w)"
  by blast

lemmas pricedb_defs = health_def getItems_def getLatestPrices_def getPrices_def getItem_def
  getItemHistory_def getItemStats_def getItemsBulk_def getSnapshot_def search_def
  compareItems_def getCacheStats_def

lemmas spells_defs = predict_def predictSpellItem_def getSpellValue_def getSpellAnalytics_def
  getItemSpellPremium_def spellIdToName_def spellNameToId_def getSpells_def getFetcherStatus_def
  spells_health_def getStats_def getStatusProxy_def

lemma pricedb_invoke_shape:
  "(\<exists>e. \<forall>(net :: 'a network) w. pricedb_invoke net call w = throw e w) \<or>
   (\<exists>ep opts. init_headers opts = None \<and>
      (\<forall>(net :: 'a network) w. pricedb_invoke net call w = request net ep opts w))"
proof (cases call)
  case (GetItem sku)
  then show ?thesis
    by (cases "encodeURIComponent sku") (auto simp: getItem_def no_options_def shape_request)
next
  case (GetItemHistory sku options)
  then show ?thesis
    by (cases "encodeURIComponent sku") (auto simp: getItemHistory_def no_options_def Let_def shape_request)
next
  case (GetItemStats sku)
  then show ?thesis
    by (cases "encodeURIComponent sku") (auto simp: getItemStats_def no_options_def shape_request)
next
  case (CompareItems sku1 sku2)
  then show ?thesis
    by (cases "encodeURIComponent sku1"; cases "encodeURIComponent sku2")
       (auto simp: compareItems_def no_options_def shape_request)
qed (simp_all add: pricedb_defs no_options_def Let_def shape_request)

lemma spells_invoke_request:
  "\<exists>ep opts. init_headers opts = None \<and>
      (\<forall>(net :: 'a network) w. spells_invoke net call w = request net ep opts w)"
  by (cases call) (simp_all add: spells_defs no_options_def Let_def is_request)

lemma spells_invoke_shape:
  "(\<exists>e. \<forall>(net :: 'a network) w. spells_invoke net call w = throw e w) \<or>
   (\<exists>ep opts. init_headers opts = None \<and>
      (\<forall>(net :: 'a network) w. spells_invoke net call w = request net ep opts w))"
  using spells_invoke_request [of call, where ?'a = 'a] by blast


lemma pricedb_invoke_this:
  "pricedb_invoke net call w = Some (r, w') \<Longrightarrow> this w' = this w"
  using pricedb_invoke_shape [of call, where ?'a = 'a]
  by (auto dest: request_this simp: throw_def)

lemma spells_invoke_this:
  "spells_invoke net call w = Some (r, w') \<Longrightarrow> this w' = this w"
  using spells_invoke_shape [of call, where ?'a = 'a]
  by (auto dest: request_this simp: throw_def)

lemma pricedb_run_this:
  "pricedb_run net calls w = Some w' \<Longrightarrow> this w' = this w"
  by (induction calls arbitrary: w) (auto split: option.splits dest: pricedb_invoke_this)

lemma spells_run_this:
  "spells_run net calls w = Some w' \<Longrightarrow> this w' = this w"
  by (induction calls arbitrary: w) (auto split: option.splits dest: spells_invoke_this)

lemma issued_same_client:
  assumes shape: "(\<exists>e. \<forall>(net :: 'a network) w. m net w = throw e w) \<or>
     (\<exists>ep opts. init_headers opts = None \<and> (\<forall>(net :: 'a network) w. m net w = request net ep opts w))"
    and "m net w = Some (r, w')" "m net' v = Some (r', v')" "this v = this w"
  shows "issued w w' = issued v v'"
  using assms by (auto simp: throw_def issued_def fetched_def dest!: request_issued)



lemma pricedb_invoke_returns: "\<exists>r w'. pricedb_invoke net call w = Some (r, w')"
  using pricedb_invoke_shape [of call, where ?'a = 'a] request_returns
  by (auto simp: throw_def)

lemma pricedb_run_returns: "\<exists>w'. pricedb_run net calls w = Some w'"
proof (induction calls arbitrary: w)
  case Nil
  show ?case by simp
next
  case (Cons c cs)
  obtain r w1 where "pricedb_invoke net c w = Some (r, w1)"
    using pricedb_invoke_returns by blast
  with Cons [of w1] show ?case by simp
qed

section \<open>The claims\<close>

lemmas world_defs = new_world_def PriceDBClient_def SpellsClient_def no_config_def string_or_def
  number_or_def spread_def falsy_def timer_delay_def

lemmas encode_defs = encodeURIComponent_def Encode.simps lit_def uriUnreserved_def uriAlpha_def
  DecimalDigit_def uriMark_def apostrophe_def isLeadingSurrogate_def isTrailingSurrogate_def
  prepend_def percentOctets_def percentOctet_def UTF8_def hexDigits_def

lemmas number_defs = int_digits_def nat_digits.simps digit_unit_def

lemma graph_query:
  "params_toString
     (append_if_string
        (append_if_number (params_append [] (lit ''header'') (lit ''false'')) (lit ''height'')
           (Some (Num 400)))
        (lit ''width'') None) = lit ''header=false&height=400''"
  by (simp add: append_if_string_def append_if_number_def falsy_def params_append_def
      params_toString_def urlencoded_def utf8_encode_def lit_def number_defs
      isLeadingSurrogate_def isTrailingSurrogate_def UTF8_def urlencodedByte_def)

text \<open>
  C1.  \<open>getGraphUrl\<close> is a function of the client's base URL and its arguments only.  On
  a client whose base URL is \<open>https://pricedb.io\<close>, after any sequence of earlier calls
  on the instance and against any network, \<open>getGraphUrl(sku, {header: false, height: 400})\<close>
  is the string \<open>https://pricedb.io/api/graph/\<close>, then \<open>encodeURIComponent(sku)\<close>, then
  \<open>?header=false&height=400\<close>; where \<open>encodeURIComponent\<close> throws (an unpaired
  surrogate in \<open>sku\<close>) the call throws the same error.  The function takes no network
  and returns no world: it performs no I/O.
\<close>

theorem getGraphUrl_deterministic:
  assumes "baseUrl (this w) = lit ''https://pricedb.io''"
    and "pricedb_run net calls w = Some w'"
  shows "getGraphUrl sku \<lparr>header = Some False, height = Some (Num 400), width = None\<rparr> w' =
     (case encodeURIComponent sku of
        Inl e \<Rightarrow> Inl e
      | Inr s \<Rightarrow> Inr (lit ''https://pricedb.io/api/graph/'' @ s @ lit ''?header=false&height=400''))"
proof -
  have "baseUrl (this w') = lit ''https://pricedb.io''"
    using assms pricedb_run_this by metis
  then show ?thesis
    by (simp add: getGraphUrl_def graph_query split: sum.splits) (simp add: lit_def)
qed

theorem getGraphUrl_deterministic_witness:
  "baseUrl (this (new_world (PriceDBClient no_config))) = lit ''https://pricedb.io'' \<and>
   (\<exists>w'. pricedb_run (silent :: json network)
            [GetPrices \<lparr>limit = Some (Num 5), offset = None\<rparr>, GetItem (lit ''1;6'')]
            (new_world (PriceDBClient no_config)) = Some w' \<and>
         getGraphUrl (lit ''40;11;kt-3'') \<lparr>header = Some False, height = Some (Num 400), width = None\<rparr> w' =
           Inr (lit ''https://pricedb.io/api/graph/40%3B11%3Bkt-3?header=false&height=400''))"
proof -
  let ?W = "new_world (PriceDBClient no_config)"
  let ?calls = "[GetPrices \<lparr>limit = Some (Num 5), offset = None\<rparr>, GetItem (lit ''1;6'')]"
  have b: "baseUrl (this ?W) = lit ''https://pricedb.io''"
    by (simp add: world_defs)
  obtain w' where r: "pricedb_run (silent :: json network) ?calls ?W = Some w'"
    using pricedb_run_returns by blast
  have enc: "encodeURIComponent (lit ''40;11;kt-3'') = Inr (lit ''40%3B11%3Bkt-3'')"
    by (simp add: encode_defs)
  from getGraphUrl_deterministic [OF b r, of "lit ''40;11;kt-3''"] enc
  have "getGraphUrl (lit ''40;11;kt-3'') \<lparr>header = Some False, height = Some (Num 400), width = None\<rparr> w' =
           Inr (lit ''https://pricedb.io/api/graph/40%3B11%3Bkt-3?header=false&height=400'')"
    by (simp add: lit_def)
  with b r show ?thesis by blast
qed






text \<open>
  C4.  For every headers map \<open>H\<close> given to either constructor: the client's header map
  binds \<open>Content-Type\<close> to \<open>application/json\<close> whenever \<open>H\<close> does not bind that key
  itself, and binds every key of \<open>H\<close> to the value \<open>H\<close> gives it.  Without a headers map
  the default stays.
\<close>

theorem headers_merge:
  "(\<forall>H. cfg_headers cfg = Some H \<longrightarrow>
      (H (lit ''Content-Type'') = None \<longrightarrow>
         headers (PriceDBClient cfg) (lit ''Content-Type'') = Some (lit ''application/json'') \<and>
         headers (SpellsClient cfg) (lit ''Content-Type'') = Some (lit ''application/json'')) \<and>
      (\<forall>k v. H k = Some v \<longrightarrow>
         headers (PriceDBClient cfg) k = Some v \<and> headers (SpellsClient cfg) k = Some v)) \<and>
   (cfg_headers cfg = None \<longrightarrow>
      headers (PriceDBClient cfg) (lit ''Content-Type'') = Some (lit ''application/json'') \<and>
      headers (SpellsClient cfg) (lit ''Content-Type'') = Some (lit ''application/json''))"
  by (auto simp: PriceDBClient_def SpellsClient_def spread_def default_headers_def map_add_def)

theorem headers_merge_witness:
  "headers (PriceDBClient \<lparr>cfg_baseUrl = None, cfg_timeout = None,
      cfg_headers = Some [lit ''Authorization'' \<mapsto> lit ''Bearer t'']\<rparr>) (lit ''Content-Type'')
     = Some (lit ''application/json'') \<and>
   headers (SpellsClient \<lparr>cfg_baseUrl = None, cfg_timeout = None,
      cfg_headers = Some [lit ''Authorization'' \<mapsto> lit ''Bearer t'']\<rparr>) (lit ''Authorization'')
     = Some (lit ''Bearer t'') \<and>
   headers (PriceDBClient \<lparr>cfg_baseUrl = None, cfg_timeout = None,
      cfg_headers = Some [lit ''Content-Type'' \<mapsto> lit ''text/plain'']\<rparr>) (lit ''Content-Type'')
     = Some (lit ''text/plain'')"
proof -
  let ?H = "[lit ''Authorization'' \<mapsto> lit ''Bearer t'']"
  let ?K = "[lit ''Content-Type'' \<mapsto> lit ''text/plain'']"
  have "?H (lit ''Content-Type'') = None" "?H (lit ''Authorization'') = Some (lit ''Bearer t'')"
    "?K (lit ''Content-Type'') = Some (lit ''text/plain'')"
    by (simp_all add: lit_def)
  with headers_merge [of "\<lparr>cfg_baseUrl = None, cfg_timeout = None, cfg_headers = Some ?H\<rparr>"]
    headers_merge [of "\<lparr>cfg_baseUrl = None, cfg_timeout = None, cfg_headers = Some ?K\<rparr>"]
  show ?thesis by simp
qed

text \<open>
  C5.  No endpoint method of either client changes \<open>this\<close>: base URL, timeout and headers
  are what the constructor set.  Hence, of two calls made one after the other on the same
  instance, the second issues the request (URL, method, body, headers) that the same call
  issues on any world holding the same configuration, whatever the first call and the
  networks were.
\<close>

theorem no_shared_state:
  "(pricedb_invoke (net :: 'a network) a w = Some (ra, w1) \<longrightarrow>
      this w1 = this w \<and>
      (\<forall>b (net2 :: 'a network) rb w2 (net3 :: 'a network) v rb' v'.
         pricedb_invoke net2 b w1 = Some (rb, w2) \<and> this v = this w \<and>
         pricedb_invoke net3 b v = Some (rb', v') \<longrightarrow> issued w1 w2 = issued v v')) \<and>
   (spells_invoke (net :: 'a network) c u = Some (rc, u1) \<longrightarrow>
      this u1 = this u \<and>
      (\<forall>d (net2 :: 'a network) rd u2 (net3 :: 'a network) v rd' v'.
         spells_invoke net2 d u1 = Some (rd, u2) \<and> this v = this u \<and>
         spells_invoke net3 d v = Some (rd', v') \<longrightarrow> issued u1 u2 = issued v v'))"
proof (intro conjI impI allI)
  assume "pricedb_invoke net a w = Some (ra, w1)"
  then show "this w1 = this w" by (rule pricedb_invoke_this)
next
  fix b and net2 :: "'a network" and rb w2 and net3 :: "'a network" and v rb' v'
  assume a: "pricedb_invoke net a w = Some (ra, w1)"
    and b: "pricedb_invoke net2 b w1 = Some (rb, w2) \<and> this v = this w \<and>
         pricedb_invoke net3 b v = Some (rb', v')"
  from a have "this w1 = this w" by (rule pricedb_invoke_this)
  with b show "issued w1 w2 = issued v v'"
    using issued_same_client [OF pricedb_invoke_shape [of b, where ?'a = 'a], of net2 w1 rb w2 net3 v rb' v']
    by simp
next
  assume "spells_invoke net c u = Some (rc, u1)"
  then show "this u1 = this u" by (rule spells_invoke_this)
next
  fix d and net2 :: "'a network" and rd u2 and net3 :: "'a network" and v rd' v'
  assume a: "spells_invoke net c u = Some (rc, u1)"
    and b: "spells_invoke net2 d u1 = Some (rd, u2) \<and> this v = this u \<and>
         spells_invoke net3 d v = Some (rd', v')"
  from a have "this u1 = this u" by (rule spells_invoke_this)
  with b show "issued u1 u2 = issued v v'"
    using issued_same_client [OF spells_invoke_shape [of d, where ?'a = 'a], of net2 u1 rd u2 net3 v rd' v']
    by simp
qed

theorem no_shared_state_witness:
  "\<exists>ra w1 rb w2.
     pricedb_invoke (silent :: json network) (GetPrices \<lparr>limit = Some (Num 5), offset = Some (Num 10)\<rparr>)
       (new_world (PriceDBClient no_config)) = Some (ra, w1) \<and>
     pricedb_invoke (drops 3 :: json network) GetItems w1 = Some (rb, w2) \<and>
     this w1 = PriceDBClient no_config \<and>
     issued (new_world (PriceDBClient no_config)) w1 =
       [(lit ''https://pricedb.io/api/prices?limit=5&offset=10'', None, None, default_headers)] \<and>
     issued w1 w2 = [(lit ''https://pricedb.io/api/items'', None, None, default_headers)]"
proof -
  let ?W = "new_world (PriceDBClient no_config)"
  let ?a = "GetPrices \<lparr>limit = Some (Num 5), offset = Some (Num 10)\<rparr>"
  obtain ra w1 where a: "pricedb_invoke (silent :: json network) ?a ?W = Some (ra, w1)"
    using pricedb_invoke_returns by blast
  obtain rb w2 where b: "pricedb_invoke (drops 3 :: json network) GetItems w1 = Some (rb, w2)"
    using pricedb_invoke_returns by blast
  obtain rb' v' where b': "pricedb_invoke (silent :: json network) GetItems ?W = Some (rb', v')"
    using pricedb_invoke_returns by blast
  note t = no_shared_state [of "silent :: json network" ?a ?W ra w1]
  from t a have 1: "this w1 = this ?W" by blast
  from t a b b' have 2: "issued w1 w2 = issued ?W v'" by blast
  have q: "params_toString
             (append_if_number (append_if_number [] (lit ''limit'') (Some (Num 5))) (lit ''offset'') (Some (Num 10)))
           = lit ''limit=5&offset=10''"
    by (simp add: append_if_number_def params_append_def params_toString_def urlencoded_def
        utf8_encode_def lit_def number_defs falsy_def isLeadingSurrogate_def isTrailingSurrogate_def UTF8_def
        urlencodedByte_def)
  have h: "headers (this ?W) ++ spread (init_headers no_options) = default_headers"
    by (simp add: world_defs no_options_def)
  from a have "request (silent :: json network) (lit ''/api/prices?'' @ lit ''limit=5&offset=10'')
      no_options ?W = Some (ra, w1)"
    by (simp add: getPrices_def q) (simp add: lit_def)
  from request_issued [OF this] h
  have 3: "issued ?W w1 = [(lit ''https://pricedb.io/api/prices?limit=5&offset=10'', None, None, default_headers)]"
    by (simp add: no_options_def) (simp add: world_defs lit_def)
  from b' have "request (silent :: json network) (lit ''/api/items'') no_options ?W = Some (rb', v')"
    by (simp add: getItems_def)
  from request_issued [OF this] h
  have 4: "issued ?W v' = [(lit ''https://pricedb.io/api/items'', None, None, default_headers)]"
    by (simp add: no_options_def) (simp add: world_defs lit_def)
  from 1 have 5: "this w1 = PriceDBClient no_config" by (simp add: new_world_def)
  from a b 2 3 4 5 show ?thesis by simp
qed

text \<open>
  C6.  On every path through \<open>request\<close> (the code of both clients), whatever the network
  does (a success, a status outside 200 to 299, a body that does not parse, a failed
  connection, an abort by the timer), the call completes, the last thing it does is
  \<open>clearTimeout\<close> on the timer it armed first, and that timer is no longer armed
  afterwards.
\<close>

theorem timer_always_cleared:
  "\<exists>res w'. request net ep opts w = Some (res, w') \<and>
     (\<exists>mid. events w' =
        events w @ SetTimeout (next_timer w) (timeout (this w)) # mid @ [ClearTimeout (next_timer w)]) \<and>
     next_timer w \<notin> fst ` set (timers w')"
proof -
  obtain res w' where r: "request net ep opts w = Some (res, w')"
    using request_returns by blast
  from request_events [OF r] request_timers [OF r] r show ?thesis by auto
qed

theorem timer_always_cleared_witness:
  "map_option (\<lambda>r. (fst r, last (events (snd r))))
     (request (answers 40 \<lparr>status = 200, body_after = 5, parsed = Inr test_item\<rparr>) (lit ''/api/items'')
        no_options (new_world (PriceDBClient no_config))) = Some (Inr test_item, ClearTimeout 0) \<and>
   map_option (\<lambda>r. (fst r, last (events (snd r))))
     (request (answers 40 \<lparr>status = 500, body_after = 5, parsed = Inr test_item\<rparr>) (lit ''/api/items'')
        no_options (new_world (PriceDBClient no_config))) =
     Some (Inl (Error (lit ''HTTP error! status: 500'')), ClearTimeout 0) \<and>
   map_option (\<lambda>r. (fst r, last (events (snd r))))
     (request (answers 40 \<lparr>status = 200, body_after = 5, parsed = Inl SyntaxError :: error + json\<rparr>)
        (lit ''/api/items'') no_options (new_world (PriceDBClient no_config))) =
     Some (Inl SyntaxError, ClearTimeout 0) \<and>
   map_option (\<lambda>r. (fst r, last (events (snd r))))
     (request (drops 40 :: json network) (lit ''/api/items'') no_options
        (new_world (SpellsClient no_config))) = Some (Inl NetworkError, ClearTimeout 0) \<and>
   map_option (\<lambda>r. (fst r, last (events (snd r))))
     (request (silent :: json network) (lit ''/api/items'') no_options
        (new_world (SpellsClient no_config))) = Some (Inl AbortError, ClearTimeout 0) \<and>
   map_option (\<lambda>r. (fst r, last (events (snd r))))
     (request (answers 40 \<lparr>status = 200, body_after = 20000, parsed = Inr test_item\<rparr>)
        (lit ''/api/items'') no_options (new_world (SpellsClient no_config))) =
     Some (Inl AbortError, ClearTimeout 0)"
proof -
  let ?W = "new_world (PriceDBClient no_config)"
  let ?V = "new_world (SpellsClient no_config)"
  let ?ep = "lit ''/api/items''"
  have n: "next_timer ?W = 0" "next_timer ?V = 0" "timer_delay (timeout (this ?W)) = 10000"
    "timer_delay (timeout (this ?V)) = 10000"
    by (simp_all add: world_defs)
  have step: "map_option (\<lambda>r. (fst r, last (events (snd r)))) (request net ?ep no_options w)
      = Some (x, ClearTimeout (next_timer w))"
    if det: "\<exists>w'. request net ?ep no_options w = Some (x, w')"
    for net :: "json network" and w x
  proof -
    from timer_always_cleared [of net ?ep no_options w]
    obtain res w' where r: "request net ?ep no_options w = Some (res, w')"
      and l: "last (events w') = ClearTimeout (next_timer w)" by auto
    from det r l show ?thesis by auto
  qed
  have 1: "map_option (\<lambda>r. (fst r, last (events (snd r))))
     (request (answers 40 \<lparr>status = 200, body_after = 5, parsed = Inr test_item\<rparr>) ?ep no_options ?W)
     = Some (Inr test_item, ClearTimeout (next_timer ?W))"
    using request_ok [of "answers 40 \<lparr>status = 200, body_after = 5, parsed = Inr test_item\<rparr>" ?W ?ep
        no_options 40 "\<lparr>status = 200, body_after = 5, parsed = Inr test_item\<rparr>"] n(3)
    by (intro step) (simp add: answers_def ok_def)
  have 2: "map_option (\<lambda>r. (fst r, last (events (snd r))))
     (request (answers 40 \<lparr>status = 500, body_after = 5, parsed = Inr test_item\<rparr>) ?ep no_options ?W)
     = Some (Inl (Error (lit ''HTTP error! status: 500'')), ClearTimeout (next_timer ?W))"
    using request_not_ok [of "answers 40 \<lparr>status = 500, body_after = 5, parsed = Inr test_item\<rparr>" ?W ?ep
        no_options 40 "\<lparr>status = 500, body_after = 5, parsed = Inr test_item\<rparr>"] n(3)
    by (intro step) (simp add: answers_def ok_def number_defs lit_def)
  have 3: "map_option (\<lambda>r. (fst r, last (events (snd r))))
     (request (answers 40 \<lparr>status = 200, body_after = 5, parsed = Inl SyntaxError :: error + json\<rparr>)
        ?ep no_options ?W)
     = Some (Inl SyntaxError, ClearTimeout (next_timer ?W))"
    using request_ok [of "answers 40 \<lparr>status = 200, body_after = 5, parsed = Inl SyntaxError\<rparr>" ?W ?ep
        no_options 40 "\<lparr>status = 200, body_after = 5, parsed = Inl SyntaxError :: error + json\<rparr>"] n(3)
    by (intro step) (simp add: answers_def ok_def)
  have 4: "map_option (\<lambda>r. (fst r, last (events (snd r))))
     (request (drops 40 :: json network) ?ep no_options ?V)
     = Some (Inl NetworkError, ClearTimeout (next_timer ?V))"
    using request_Fails [of "drops 40 :: json network" ?V ?ep no_options 40] n(4)
    by (intro step) (simp add: drops_def)
  have 5: "map_option (\<lambda>r. (fst r, last (events (snd r))))
     (request (silent :: json network) ?ep no_options ?V)
     = Some (Inl AbortError, ClearTimeout (next_timer ?V))"
    by (intro step) (simp add: request_silent)
  have 6: "map_option (\<lambda>r. (fst r, last (events (snd r))))
     (request (answers 40 \<lparr>status = 200, body_after = 20000, parsed = Inr test_item\<rparr>) ?ep no_options ?V)
     = Some (Inl AbortError, ClearTimeout (next_timer ?V))"
    using request_stalled_body [of "answers 40 \<lparr>status = 200, body_after = 20000, parsed = Inr test_item\<rparr>"
        ?V ?ep no_options 40 "\<lparr>status = 200, body_after = 20000, parsed = Inr test_item\<rparr>"] n(4)
    by (intro step) (simp add: answers_def ok_def)
  from 1 2 3 4 5 6 n(1,2) show ?thesis by simp
qed

text \<open>
  C7.  \<open>getItemsBulk\<close> with the empty list does not throw before the network call: it
  completes after issuing exactly one request, a POST to the base URL followed by
  \<open>/api/items-bulk\<close> whose body is the JSON text \<open>{"skus":[]}\<close>, with the client's
  headers.
\<close>

theorem getItemsBulk_empty:
  \<open>\<exists>res w'. getItemsBulk net [] w = Some (res, w') \<and>
     issued w w' =
       [(baseUrl (this w) @ lit ''/api/items-bulk'', Some (lit ''POST''),
         Some (lit ''{"skus":[]}''), headers (this w))]\<close>
proof -
  have b: \<open>JSON_stringify (JObject [(lit ''skus'', JArray (map JString []))]) = lit ''{"skus":[]}''\<close>
    by (simp add: QuoteJSONString_def lit_def dquote_def isLeadingSurrogate_def isTrailingSurrogate_def)
  obtain res w' where r: "getItemsBulk net [] w = Some (res, w')"
    unfolding getItemsBulk_def using request_returns by blast
  from request_issued [OF r [unfolded getItemsBulk_def]] b r show ?thesis
    by (simp add: spread_def)
qed

theorem getItemsBulk_empty_witness:
  \<open>map_option (\<lambda>r. issued (new_world (PriceDBClient no_config)) (snd r))
     (getItemsBulk (silent :: json network) [] (new_world (PriceDBClient no_config))) =
   Some [(lit ''https://pricedb.io/api/items-bulk'', Some (lit ''POST''), Some (lit ''{"skus":[]}''),
          default_headers)]\<close>
  using getItemsBulk_empty [of "silent :: json network" "new_world (PriceDBClient no_config)"]
  by (auto simp: world_defs lit_def)

text \<open>
  C8.  When the server answers the request of \<open>getItem\<close> with a status from 200 to 299
  and a body that parses to the object \<open>test_item\<close> of the round-trip scenario, and
  the body has arrived before the cancellation timer expires, \<open>getItem\<close> returns that
  very value: no field and no number is changed, and nothing is validated (\<open>request\<close>
  is polymorphic in the parsed value).
\<close>

theorem getItem_round_trip:
  assumes "encodeURIComponent sku = Inr s"
    and "net (clock w)
           \<lparr>url = baseUrl (this w) @ lit ''/api/item/'' @ s, fetch_method = None, body = None,
            fetch_headers = headers (this w), signal = next_timer w\<rparr>
         = Responds t \<lparr>status = st, body_after = tb, parsed = Inr test_item\<rparr>"
    and "200 \<le> st" "st \<le> 299" "t + tb < timer_delay (timeout (this w))"
  shows "\<exists>w'. getItem net sku w = Some (Inr test_item, w')"
  using request_ok [of net w "lit ''/api/item/'' @ s" no_options t
      "\<lparr>status = st, body_after = tb, parsed = Inr test_item\<rparr>"] assms
  by (simp add: getItem_def no_options_def spread_def ok_def)

theorem getItem_round_trip_witness:
  "map_option fst
     (getItem (answers 40 \<lparr>status = 200, body_after = 15, parsed = Inr test_item\<rparr>) (lit ''1;6'')
        (new_world (PriceDBClient no_config))) = Some (Inr test_item)"
proof -
  let ?W = "new_world (PriceDBClient no_config)"
  have enc: "encodeURIComponent (lit ''1;6'') = Inr (lit ''1%3B6'')"
    by (simp add: encode_defs)
  have "40 + 15 < timer_delay (timeout (this ?W))"
    by (simp add: world_defs)
  from getItem_round_trip [OF enc _ _ _ this,
      of "answers 40 \<lparr>status = 200, body_after = 15, parsed = Inr test_item\<rparr>" 200]
  show ?thesis by (auto simp: answers_def)
qed

text \<open>
  C9.  A numeric query option equal to \<open>0\<close> is treated as absent: \<open>getPrices\<close> with
  \<open>limit\<close> or \<open>offset\<close> 0, \<open>getItemHistory\<close> with \<open>start\<close> or \<open>end\<close> 0 and \<open>search\<close> with
  \<open>limit\<close> 0 behave exactly as the same call without that option, so the request URL is
  the same.
\<close>

theorem zero_options_absent:
  "getPrices net \<lparr>limit = Some (Num 0), offset = off\<rparr> w = getPrices net \<lparr>limit = None, offset = off\<rparr> w \<and>
   getPrices net \<lparr>limit = lim, offset = Some (Num 0)\<rparr> w = getPrices net \<lparr>limit = lim, offset = None\<rparr> w \<and>
   getItemHistory net sku \<lparr>history_start = Some (Num 0), history_end = en\<rparr> w =
     getItemHistory net sku \<lparr>history_start = None, history_end = en\<rparr> w \<and>
   getItemHistory net sku \<lparr>history_start = st, history_end = Some (Num 0)\<rparr> w =
     getItemHistory net sku \<lparr>history_start = st, history_end = None\<rparr> w \<and>
   search net \<lparr>query = q, search_limit = Some (Num 0)\<rparr> w = search net \<lparr>query = q, search_limit = None\<rparr> w"
  by (simp add: getPrices_def getItemHistory_def search_def append_if_number_def falsy_def)

theorem zero_options_absent_witness:
  "getPrices (silent :: json network) \<lparr>limit = Some (Num 0), offset = Some (Num 20)\<rparr> (new_world (PriceDBClient no_config)) =
     getPrices silent \<lparr>limit = None, offset = Some (Num 20)\<rparr> (new_world (PriceDBClient no_config)) \<and>
   search (silent :: json network) \<lparr>query = lit ''Rocket Launcher'', search_limit = Some (Num 0)\<rparr>
       (new_world (PriceDBClient no_config)) =
     search silent \<lparr>query = lit ''Rocket Launcher'', search_limit = None\<rparr>
       (new_world (PriceDBClient no_config))"
  using zero_options_absent [of "silent :: json network" "Some (Num 20)" "new_world (PriceDBClient no_config)"
      None "[]" None None "lit ''Rocket Launcher''"]
  by simp

text \<open>
  C10, as stated, fails for the identifiers \<open>.\<close> and \<open>..\<close>: \<open>encodeURIComponent\<close>
  leaves them as they are, and the URL parser of \<open>fetch\<close> takes them for dot
  segments.  \<open>getItem('..')\<close> hands \<open>https://pricedb.io/api/item/..\<close> to \<open>fetch\<close>,
  whose path is \<open>/api/\<close>: the identifier has altered the path structure.  The distinct
  identifiers \<open>.\<close> and the empty string give the same path \<open>/api/item/\<close>.
\<close>

theorem dot_segment_counterexample:
  "encodeURIComponent (lit ''..'') = Inr (lit ''..'') \<and>
   map_option (map fst \<circ> issued (new_world (PriceDBClient no_config)) \<circ> snd)
     (getItem (silent :: json network) (lit ''..'') (new_world (PriceDBClient no_config)))
     = Some [lit ''https://pricedb.io/api/item/..''] \<and>
   url_path (lit ''/api/item/..'') = [lit ''api'', lit ''''] \<and>
   encodeURIComponent (lit ''.'') = Inr (lit ''.'') \<and>
   encodeURIComponent (lit '''') = Inr (lit '''') \<and>
   lit ''.'' \<noteq> lit '''' \<and>
   url_path (lit ''/api/item/'' @ lit ''.'') = url_path (lit ''/api/item/'' @ lit '''')"
proof -
  let ?W = "new_world (PriceDBClient no_config)"
  have e: "encodeURIComponent (lit ''..'') = Inr (lit ''..'')"
    "encodeURIComponent (lit ''.'') = Inr (lit ''.'')" "encodeURIComponent (lit '''') = Inr (lit '''')"
    by (simp_all add: encode_defs)
  have "getItem (silent :: json network) (lit ''..'') ?W =
      request silent (lit ''/api/item/'' @ lit ''..'') no_options ?W"
    by (simp add: getItem_def e)
  with request_returns [of "silent :: json network" "lit ''/api/item/'' @ lit ''..''" no_options ?W]
  obtain res w' where r: "getItem (silent :: json network) (lit ''..'') ?W = Some (res, w')"
    and rq: "request (silent :: json network) (lit ''/api/item/'' @ lit ''..'') no_options ?W = Some (res, w')"
    by auto
  from request_issued [OF rq] have "map fst (issued ?W w') = [lit ''https://pricedb.io/api/item/..'']"
    by (simp add: world_defs lit_def)
  with r have g: "map_option (map fst \<circ> issued ?W \<circ> snd) (getItem (silent :: json network) (lit ''..'') ?W)
      = Some [lit ''https://pricedb.io/api/item/..'']"
    by simp
  have p: "url_path (lit ''/api/item/..'') = [lit ''api'', lit '''']"
    "url_path (lit ''/api/item/'' @ lit ''.'') = url_path (lit ''/api/item/'' @ lit '''')"
    by (simp_all add: url_path_def lit_def isLeadingSurrogate_def isTrailingSurrogate_def
        utf8_percent_encode_def path_percent_encode_set_def end_segment_def single_dot_segment_def
        double_dot_segment_def ascii_lower_def shorten_def)
  have "lit ''.'' \<noteq> lit ''''" by (simp add: lit_def)
  with e g p show ?thesis by blast
qed

text \<open>
  C10, amended.  Every item identifier put into a URL goes through
  \<open>encodeURIComponent\<close>.  When \<open>encodeURIComponent(sku)\<close> is \<open>e\<close>: \<open>getItem\<close>,
  \<open>getItemStats\<close>, \<open>getItemHistory\<close> and \<open>compareItems\<close> (either argument) complete
  after issuing a request whose URL holds exactly \<open>e\<close> at the place of the identifier,
  followed only by a query built from the options, and so does the result of
  \<open>getGraphUrl\<close>; \<open>e\<close> consists of unreserved characters and \<open>%\<close> alone, so it
  holds none of \<open>/ ? # & =\<close> or a space; and no other identifier encodes to \<open>e\<close>.
  For every identifier other than \<open>.\<close> and \<open>..\<close> the URL parser keeps \<open>e\<close> as
  exactly one segment of the path (the path after the host is \<open>api\<close>, the name of the
  endpoint, \<open>e\<close>), whatever the query, so such an identifier cannot alter the path or
  the query and two of them never give the same path.  When \<open>encodeURIComponent(sku)\<close>
  throws (an unpaired surrogate), each of these methods fails with that error and issues
  no request.
\<close>

theorem sku_percent_encoded:
  "(encodeURIComponent sku = Inr e \<longrightarrow>
      (\<exists>res w'. getItem net sku w = Some (res, w') \<and>
         map fst (issued w w') = [baseUrl (this w) @ lit ''/api/item/'' @ e]) \<and>
      (\<exists>res w'. getItemStats net sku w = Some (res, w') \<and>
         map fst (issued w w') = [baseUrl (this w) @ lit ''/api/item-stats/'' @ e]) \<and>
      (\<exists>res w'. getItemHistory net sku hopts w = Some (res, w') \<and>
         map fst (issued w w') =
           [baseUrl (this w) @ lit ''/api/item-history/'' @ e @
            (let qs = params_toString
                        (append_if_number
                           (append_if_number [] (lit ''start'') (history_start hopts))
                           (lit ''end'') (history_end hopts))
             in if qs = [] then [] else lit ''?'' @ qs)]) \<and>
      (\<forall>sku2 e2. encodeURIComponent sku2 = Inr e2 \<longrightarrow>
         (\<exists>res w'. compareItems net sku sku2 w = Some (res, w') \<and>
            map fst (issued w w') = [baseUrl (this w) @ lit ''/api/compare/'' @ e @ lit ''/'' @ e2]) \<and>
         (\<exists>res w'. compareItems net sku2 sku w = Some (res, w') \<and>
            map fst (issued w w') = [baseUrl (this w) @ lit ''/api/compare/'' @ e2 @ lit ''/'' @ e])) \<and>
      getGraphUrl sku gopts w =
        Inr (baseUrl (this w) @ lit ''/api/graph/'' @ e @
             (let qs = params_toString
                         (append_if_string
                            (append_if_number
                               (if header gopts = Some False
                                then params_append [] (lit ''header'') (lit ''false'') else [])
                               (lit ''height'') (height gopts))
                            (lit ''width'') (width gopts))
              in if qs = [] then [] else lit ''?'' @ qs)) \<and>
      (\<forall>u \<in> set e. uriUnreserved u \<or> u = 0x25) \<and>
      set e \<inter> set (lit ''/?#&= '') = {} \<and>
      (\<forall>sku'. encodeURIComponent sku' = Inr e \<longrightarrow> sku' = sku) \<and>
      (sku \<noteq> lit ''.'' \<and> sku \<noteq> lit ''..'' \<longrightarrow>
         (\<forall>q. q = [] \<or> (\<exists>qs. q = lit ''?'' @ qs) \<longrightarrow>
            url_path (lit ''/api/item/'' @ e @ q) = [lit ''api'', lit ''item'', e] \<and>
            url_path (lit ''/api/item-stats/'' @ e @ q) = [lit ''api'', lit ''item-stats'', e] \<and>
            url_path (lit ''/api/item-history/'' @ e @ q) = [lit ''api'', lit ''item-history'', e] \<and>
            url_path (lit ''/api/graph/'' @ e @ q) = [lit ''api'', lit ''graph'', e]) \<and>
         (\<forall>sku2 e2. encodeURIComponent sku2 = Inr e2 \<and> sku2 \<noteq> lit ''.'' \<and> sku2 \<noteq> lit ''..'' \<longrightarrow>
            url_path (lit ''/api/compare/'' @ e @ lit ''/'' @ e2) = [lit ''api'', lit ''compare'', e, e2] \<and>
            (url_path (lit ''/api/item/'' @ e2) = url_path (lit ''/api/item/'' @ e) \<longrightarrow> sku2 = sku)))) \<and>
   (encodeURIComponent sku = Inl err \<longrightarrow>
      getItem net sku w = Some (Inl err, w) \<and>
      getItemStats net sku w = Some (Inl err, w) \<and>
      getItemHistory net sku hopts w = Some (Inl err, w) \<and>
      compareItems net sku sku3 w = Some (Inl err, w) \<and>
      (\<exists>err'. compareItems net sku3 sku w = Some (Inl err', w)) \<and>
      getGraphUrl sku gopts w = Inl err)"
proof (intro conjI impI allI ballI)
  assume e: "encodeURIComponent sku = Inr e"
  obtain res w' where r: "request net (lit ''/api/item/'' @ e) no_options w = Some (res, w')"
    using request_returns by blast
  from request_issued [OF r] r e
  show "\<exists>res w'. getItem net sku w = Some (res, w') \<and>
      map fst (issued w w') = [baseUrl (this w) @ lit ''/api/item/'' @ e]"
    by (auto simp: getItem_def)
next
  assume e: "encodeURIComponent sku = Inr e"
  obtain res w' where r: "request net (lit ''/api/item-stats/'' @ e) no_options w = Some (res, w')"
    using request_returns by blast
  from request_issued [OF r] r e
  show "\<exists>res w'. getItemStats net sku w = Some (res, w') \<and>
      map fst (issued w w') = [baseUrl (this w) @ lit ''/api/item-stats/'' @ e]"
    by (auto simp: getItemStats_def)
next
  assume e: "encodeURIComponent sku = Inr e"
  let ?qs = "params_toString
               (append_if_number (append_if_number [] (lit ''start'') (history_start hopts))
                  (lit ''end'') (history_end hopts))"
  let ?ep = "lit ''/api/item-history/'' @ e @ (if ?qs = [] then [] else lit ''?'' @ ?qs)"
  obtain res w' where r: "request net ?ep no_options w = Some (res, w')"
    using request_returns by blast
  have "getItemHistory net sku hopts w = request net ?ep no_options w"
    by (simp add: getItemHistory_def Let_def e)
  with request_issued [OF r] r
  show "\<exists>res w'. getItemHistory net sku hopts w = Some (res, w') \<and>
         map fst (issued w w') =
           [baseUrl (this w) @ lit ''/api/item-history/'' @ e @
            (let qs = params_toString
                        (append_if_number
                           (append_if_number [] (lit ''start'') (history_start hopts))
                           (lit ''end'') (history_end hopts))
             in if qs = [] then [] else lit ''?'' @ qs)]"
    by (auto simp: Let_def)
next
  fix sku2 e2
  assume e: "encodeURIComponent sku = Inr e" and e2: "encodeURIComponent sku2 = Inr e2"
  obtain res w' where r: "request net (lit ''/api/compare/'' @ e @ lit ''/'' @ e2) no_options w = Some (res, w')"
    using request_returns by blast
  from request_issued [OF r] r e e2
  show "\<exists>res w'. compareItems net sku sku2 w = Some (res, w') \<and>
      map fst (issued w w') = [baseUrl (this w) @ lit ''/api/compare/'' @ e @ lit ''/'' @ e2]"
    by (auto simp: compareItems_def)
next
  fix sku2 e2
  assume e: "encodeURIComponent sku = Inr e" and e2: "encodeURIComponent sku2 = Inr e2"
  obtain res w' where r: "request net (lit ''/api/compare/'' @ e2 @ lit ''/'' @ e) no_options w = Some (res, w')"
    using request_returns by blast
  from request_issued [OF r] r e e2
  show "\<exists>res w'. compareItems net sku2 sku w = Some (res, w') \<and>
      map fst (issued w w') = [baseUrl (this w) @ lit ''/api/compare/'' @ e2 @ lit ''/'' @ e]"
    by (auto simp: compareItems_def)
next
  assume "encodeURIComponent sku = Inr e"
  then show "getGraphUrl sku gopts w =
        Inr (baseUrl (this w) @ lit ''/api/graph/'' @ e @
             (let qs = params_toString
                         (append_if_string
                            (append_if_number
                               (if header gopts = Some False
                                then params_append [] (lit ''header'') (lit ''false'') else [])
                               (lit ''height'') (height gopts))
                            (lit ''width'') (width gopts))
              in if qs = [] then [] else lit ''?'' @ qs))"
    by (simp add: getGraphUrl_def Let_def)
next
  fix u
  assume "encodeURIComponent sku = Inr e" "u \<in> set e"
  then show "uriUnreserved u \<or> u = 0x25"
    using Encode_chars by (simp add: encodeURIComponent_def)
next
  assume "encodeURIComponent sku = Inr e"
  then show "set e \<inter> set (lit ''/?#&= '') = {}"
    using Encode_no_delimiter by (simp add: encodeURIComponent_def)
next
  fix sku'
  assume "encodeURIComponent sku = Inr e" "encodeURIComponent sku' = Inr e"
  then show "sku' = sku"
    using Encode_inj by (simp add: encodeURIComponent_def)
next
  fix q
  assume e: "encodeURIComponent sku = Inr e" and d: "sku \<noteq> lit ''.'' \<and> sku \<noteq> lit ''..''"
    and q: "q = [] \<or> (\<exists>qs. q = lit ''?'' @ qs)"
  from q have q': "q = [] \<or> (\<exists>qs. q = 0x3F # qs)" by (simp add: lit_def)
  from e have E: "Encode sku = Inr e" by (simp add: encodeURIComponent_def)
  show "url_path (lit ''/api/item/'' @ e @ q) = [lit ''api'', lit ''item'', e]"
    using encoded_path [OF E d endpoint_names(1,2) q'] by (simp add: lit_def)
  show "url_path (lit ''/api/item-stats/'' @ e @ q) = [lit ''api'', lit ''item-stats'', e]"
    using encoded_path [OF E d endpoint_names(1,3) q'] by (simp add: lit_def)
  show "url_path (lit ''/api/item-history/'' @ e @ q) = [lit ''api'', lit ''item-history'', e]"
    using encoded_path [OF E d endpoint_names(1,4) q'] by (simp add: lit_def)
  show "url_path (lit ''/api/graph/'' @ e @ q) = [lit ''api'', lit ''graph'', e]"
    using encoded_path [OF E d endpoint_names(1,5) q'] by (simp add: lit_def)
next
  fix sku2 e2
  assume e: "encodeURIComponent sku = Inr e" and d: "sku \<noteq> lit ''.'' \<and> sku \<noteq> lit ''..''"
    and e2: "encodeURIComponent sku2 = Inr e2 \<and> sku2 \<noteq> lit ''.'' \<and> sku2 \<noteq> lit ''..''"
  from e e2 have E: "Encode sku = Inr e" "Encode sku2 = Inr e2" by (simp_all add: encodeURIComponent_def)
  from e2 have d2: "sku2 \<noteq> lit ''.'' \<and> sku2 \<noteq> lit ''..''" by simp
  have none: "([] :: jsstring) = [] \<or> (\<exists>qs. ([] :: jsstring) = 0x3F # qs)" by simp
  show "url_path (lit ''/api/compare/'' @ e @ lit ''/'' @ e2) = [lit ''api'', lit ''compare'', e, e2]"
    using encoded_path2 [OF E d d2 endpoint_names(1,6)] by (simp add: lit_def)
next
  fix sku2 e2
  assume e: "encodeURIComponent sku = Inr e" and d: "sku \<noteq> lit ''.'' \<and> sku \<noteq> lit ''..''"
    and e2: "encodeURIComponent sku2 = Inr e2 \<and> sku2 \<noteq> lit ''.'' \<and> sku2 \<noteq> lit ''..''"
    and p: "url_path (lit ''/api/item/'' @ e2) = url_path (lit ''/api/item/'' @ e)"
  from e e2 have E: "Encode sku = Inr e" "Encode sku2 = Inr e2" by (simp_all add: encodeURIComponent_def)
  from e2 have d2: "sku2 \<noteq> lit ''.'' \<and> sku2 \<noteq> lit ''..''" by simp
  have none: "([] :: jsstring) = [] \<or> (\<exists>qs. ([] :: jsstring) = 0x3F # qs)" by simp
  have "url_path (lit ''/api/item/'' @ e @ []) = [lit ''api'', lit ''item'', e]"
    using encoded_path [OF E(1) d endpoint_names(1,2) none] by (simp add: lit_def)
  moreover have "url_path (lit ''/api/item/'' @ e2 @ []) = [lit ''api'', lit ''item'', e2]"
    using encoded_path [OF E(2) d2 endpoint_names(1,2) none] by (simp add: lit_def)
  ultimately have "e2 = e" using p by simp
  with E Encode_inj show "sku2 = sku" by metis
next
  assume "encodeURIComponent sku = Inl err"
  then show "getItem net sku w = Some (Inl err, w)" "getItemStats net sku w = Some (Inl err, w)"
    "getItemHistory net sku hopts w = Some (Inl err, w)"
    "compareItems net sku sku3 w = Some (Inl err, w)" "getGraphUrl sku gopts w = Inl err"
    by (simp_all add: getItem_def getItemStats_def getItemHistory_def compareItems_def
        getGraphUrl_def throw_def Let_def)
next
  assume e: "encodeURIComponent sku = Inl err"
  show "\<exists>err'. compareItems net sku3 sku w = Some (Inl err', w)"
    by (cases "encodeURIComponent sku3") (simp_all add: compareItems_def throw_def e)
qed

theorem sku_percent_encoded_witness:
  "encodeURIComponent (lit ''a/b?c #'') = Inr (lit ''a%2Fb%3Fc%20%23'') \<and>
   getGraphUrl (lit ''a/b?c #'') \<lparr>header = None, height = None, width = None\<rparr>
     (new_world (PriceDBClient no_config)) = Inr (lit ''https://pricedb.io/api/graph/a%2Fb%3Fc%20%23'') \<and>
   map_option (\<lambda>r. map fst (issued (new_world (PriceDBClient no_config)) (snd r)))
     (getItem (silent :: json network) (lit ''a/b?c #'') (new_world (PriceDBClient no_config))) =
     Some [lit ''https://pricedb.io/api/item/a%2Fb%3Fc%20%23''] \<and>
   url_path (lit ''/api/item/a%2Fb%3Fc%20%23'') = [lit ''api'', lit ''item'', lit ''a%2Fb%3Fc%20%23''] \<and>
   encodeURIComponent [0xD800] = Inl URIError \<and>
   getItem (silent :: json network) [0xD800] (new_world (PriceDBClient no_config)) =
     Some (Inl URIError, new_world (PriceDBClient no_config))"
proof -
  let ?W = "new_world (PriceDBClient no_config)"
  let ?G = "\<lparr>header = None, height = None, width = None\<rparr>"
  have enc: "encodeURIComponent (lit ''a/b?c #'') = Inr (lit ''a%2Fb%3Fc%20%23'')"
    by (simp add: encode_defs)
  have bad: "encodeURIComponent [0xD800] = Inl URIError"
    by (simp add: encode_defs)
  have nd: "lit ''a/b?c #'' \<noteq> lit ''.'' \<and> lit ''a/b?c #'' \<noteq> lit ''..''"
    by (simp add: lit_def)
  note t = sku_percent_encoded [where sku = "lit ''a/b?c #''" and e = "lit ''a%2Fb%3Fc%20%23''"
      and net = "silent :: json network" and w = ?W and gopts = ?G]
  note a = t [THEN conjunct1, THEN mp, OF enc]
  from a [THEN conjunct1]
  obtain res w' where r: "getItem (silent :: json network) (lit ''a/b?c #'') ?W = Some (res, w')"
    and 1: "map fst (issued ?W w') = [baseUrl (this ?W) @ lit ''/api/item/'' @ lit ''a%2Fb%3Fc%20%23'']"
    by (elim exE conjE)
  from a [THEN conjunct2, THEN conjunct2, THEN conjunct2, THEN conjunct2, THEN conjunct1]
  have "getGraphUrl (lit ''a/b?c #'') ?G ?W =
        Inr (baseUrl (this ?W) @ lit ''/api/graph/'' @ lit ''a%2Fb%3Fc%20%23'' @
             (let qs = params_toString
                         (append_if_string
                            (append_if_number
                               (if header ?G = Some False
                                then params_append [] (lit ''header'') (lit ''false'') else [])
                               (lit ''height'') (height ?G))
                            (lit ''width'') (width ?G))
              in if qs = [] then [] else lit ''?'' @ qs))" .
  then have 2: "getGraphUrl (lit ''a/b?c #'') ?G ?W =
      Inr (baseUrl (this ?W) @ lit ''/api/graph/'' @ lit ''a%2Fb%3Fc%20%23'')"
    by (simp add: append_if_number_def append_if_string_def params_toString_def)
  from a [THEN conjunct2, THEN conjunct2, THEN conjunct2, THEN conjunct2, THEN conjunct2,
      THEN conjunct2, THEN conjunct2, THEN conjunct2, THEN mp, OF nd, THEN conjunct1,
      THEN spec [where x = "[]"]]
  have "url_path (lit ''/api/item/'' @ lit ''a%2Fb%3Fc%20%23'' @ []) =
      [lit ''api'', lit ''item'', lit ''a%2Fb%3Fc%20%23'']"
    by simp
  then have 4: "url_path (lit ''/api/item/a%2Fb%3Fc%20%23'') = [lit ''api'', lit ''item'', lit ''a%2Fb%3Fc%20%23'']"
    by (simp add: lit_def)
  from sku_percent_encoded [where sku = "[0xD800]" and net = "silent :: json network" and w = ?W
      and err = URIError, THEN conjunct2, THEN mp, OF bad, THEN conjunct1]
  have 3: "getItem (silent :: json network) [0xD800] ?W = Some (Inl URIError, ?W)" .
  have b: "baseUrl (this ?W) = lit ''https://pricedb.io''"
    by (simp add: world_defs)
  from enc bad 1 2 3 4 r show ?thesis
    by (simp add: b) (simp add: lit_def)
qed

end
